theory Spec2Isabelle
  imports Main
begin

section \<open>slackclean: a shallow embedding of cli.go\<close>

text \<open>
  The program deletes old messages and files of a Slack workspace. Its source is one Go
  file, \<^verbatim>\<open>cli.go\<close>. Go strings are byte sequences and are modelled as \<^typ>\<open>string\<close>;
  \<^verbatim>\<open>int64\<close> values are modelled as \<^typ>\<open>int\<close> with the wrap-around written out; a
  panic is a value of type \<open>panic\<close>. Text written to standard output is not modelled,
  but the arguments of every print statement are evaluated where that evaluation can
  panic.
\<close>

subsection \<open>Go values: panics, strings, 64-bit integers\<close>

datatype panic =
    IndexOutOfRange
  | SliceOutOfRange
  | NilDereference
  | PanicErr string
  | PanicMsg string

text \<open>Comparison of Go strings with \<^verbatim>\<open><\<close>: bytewise lexicographic.\<close>

fun string_lt :: "string \<Rightarrow> string \<Rightarrow> bool" where
  "string_lt [] [] = False"
| "string_lt [] (y # ys) = True"
| "string_lt (x # xs) [] = False"
| "string_lt (x # xs) (y # ys) =
     ((of_char x :: int) < of_char y \<or> (x = y \<and> string_lt xs ys))"

text \<open>\<^verbatim>\<open>strings.Contains(s, substr)\<close>.\<close>

fun Contains :: "string \<Rightarrow> string \<Rightarrow> bool" where
  "Contains [] sub = (sub = [])"
| "Contains (c # cs) sub = (take (length sub) (c # cs) = sub \<or> Contains cs sub)"

text \<open>
  \<^verbatim>\<open>strings.Split(s, sep)\<close> for a separator of one byte: the pieces between the
  occurrences of the separator, one more piece than there are occurrences.
\<close>

fun Split :: "string \<Rightarrow> char \<Rightarrow> string list" where
  "Split [] sep = [[]]"
| "Split (c # cs) sep =
     (if c = sep then [] # Split cs sep
      else (case Split cs sep of [] \<Rightarrow> [[c]] | p # ps \<Rightarrow> (c # p) # ps))"

text \<open>\<^verbatim>\<open>strings.ReplaceAll(s, old, new)\<close> for \<open>old\<close> and \<open>new\<close> of one byte each.\<close>

definition ReplaceAll :: "string \<Rightarrow> char \<Rightarrow> char \<Rightarrow> string" where
  "ReplaceAll s old new = map (\<lambda>c. if c = old then new else c) s"

text \<open>Indexing a slice: out of range panics.\<close>

definition index :: "'a list \<Rightarrow> nat \<Rightarrow> panic + 'a" where
  "index xs i = (if i < length xs then Inr (xs ! i) else Inl IndexOutOfRange)"

text \<open>An integer reduced to the range of \<^verbatim>\<open>int64\<close> (two's complement wrap-around).\<close>

definition int64 :: "int \<Rightarrow> int" where
  "int64 x = (x + 2 ^ 63) mod 2 ^ 64 - 2 ^ 63"

text \<open>Go's integer division truncates towards zero.\<close>

definition quo :: "int \<Rightarrow> int \<Rightarrow> int" where
  "quo a b = sgn a * sgn b * (\<bar>a\<bar> div \<bar>b\<bar>)"

subsection \<open>strconv.ParseInt(s, 10, 64)\<close>

text \<open>
  The standard library's parser, base 10 and 64 bits, as the source calls it. It returns
  a value together with an error; the source discards the error and keeps the value.
  A syntax error returns 0; a value out of range returns the nearest bound.
\<close>

datatype NumError = ErrSyntax | ErrRange

definition isDigit :: "char \<Rightarrow> bool" where
  "isDigit c = (48 \<le> (of_char c :: int) \<and> (of_char c :: int) \<le> 57)"

definition digitVal :: "char \<Rightarrow> int" where
  "digitVal c = of_char c - 48"

definition maxUint64 :: int where
  "maxUint64 = 2 ^ 64 - 1"

text \<open>
  The digit loop of \<^verbatim>\<open>ParseUint\<close>: it stops at the first byte that is not a digit
  (syntax error) and at the first overflow (range error), whichever comes first.
\<close>

fun ParseUint_loop :: "int \<Rightarrow> string \<Rightarrow> int \<times> NumError option" where
  "ParseUint_loop n [] = (n, None)"
| "ParseUint_loop n (c # cs) =
     (if \<not> isDigit c then (0, Some ErrSyntax)
      else if n \<ge> maxUint64 div 10 + 1 then (maxUint64, Some ErrRange)
      else (let n1 = n * 10 + digitVal c in
            if n1 > maxUint64 then (maxUint64, Some ErrRange)
            else ParseUint_loop n1 cs))"

definition ParseUint :: "string \<Rightarrow> int \<times> NumError option" where
  "ParseUint s = (if s = [] then (0, Some ErrSyntax) else ParseUint_loop 0 s)"

definition ParseInt :: "string \<Rightarrow> int \<times> NumError option" where
  "ParseInt s0 =
     (if s0 = [] then (0, Some ErrSyntax)
      else
        (let neg = (hd s0 = CHR ''-'');
             s = (if hd s0 = CHR ''+'' \<or> hd s0 = CHR ''-'' then tl s0 else s0);
             (un, err) = ParseUint s
         in if err = Some ErrSyntax then (0, Some ErrSyntax)
            else if \<not> neg \<and> un \<ge> 2 ^ 63 then (2 ^ 63 - 1, Some ErrRange)
            else if neg \<and> un > 2 ^ 63 then (- (2 ^ 63), Some ErrRange)
            else (if neg then - un else un, None)))"

subsection \<open>time.Time\<close>

text \<open>
  A point in time is kept as seconds since the Unix epoch and nanoseconds within the
  second, which is what \<^verbatim>\<open>time.Unix\<close> builds and \<^verbatim>\<open>Unix()\<close>, \<^verbatim>\<open>UnixNano()\<close> read.
\<close>

record Time =
  unixSec :: int
  nsecOf :: int

text \<open>\<^verbatim>\<open>time.Unix(sec, nsec)\<close>: nanoseconds outside [0, 1e9) are carried into the seconds.\<close>

definition Unix :: "int \<Rightarrow> int \<Rightarrow> Time" where
  "Unix sec nsec =
     (if nsec < 0 \<or> nsec \<ge> 1000000000 then
        (let n = quo nsec 1000000000;
             sec1 = int64 (sec + n);
             nsec1 = nsec - n * 1000000000
         in if nsec1 < 0 then \<lparr>unixSec = int64 (sec1 - 1), nsecOf = nsec1 + 1000000000\<rparr>
            else \<lparr>unixSec = sec1, nsecOf = nsec1\<rparr>)
      else \<lparr>unixSec = sec, nsecOf = nsec\<rparr>)"

definition UnixNano :: "Time \<Rightarrow> int" where
  "UnixNano t = int64 (unixSec t * 1000000000 + nsecOf t)"

text \<open>\<^verbatim>\<open>t.Before(u)\<close> and \<^verbatim>\<open>t.Equal(u)\<close>: the chronological order of two instants.\<close>

definition Before :: "Time \<Rightarrow> Time \<Rightarrow> bool" where
  "Before t u = (unixSec t < unixSec u \<or> (unixSec t = unixSec u \<and> nsecOf t < nsecOf u))"

definition Equal :: "Time \<Rightarrow> Time \<Rightarrow> bool" where
  "Equal t u = (unixSec t = unixSec u \<and> nsecOf t = nsecOf u)"

subsection \<open>The timestamp codec: SlackTSToTime and TimeToSlackTS\<close>

text \<open>
  \<^verbatim>\<open>SlackTSToTime\<close> splits the text at every decimal point, reads the first two pieces
  with \<^verbatim>\<open>ParseInt\<close>, dropping both errors, and indexes the second piece without a
  length check.
\<close>

definition SlackTSToTime :: "string \<Rightarrow> panic + Time" where
  "SlackTSToTime ts =
     (let parts = Split ts CHR ''.'' in
      case index parts 0 of
        Inl e \<Rightarrow> Inl e
      | Inr p0 \<Rightarrow>
          (let sec = fst (ParseInt p0) in
           case index parts 1 of
             Inl e \<Rightarrow> Inl e
           | Inr p1 \<Rightarrow>
               (let nsec = fst (ParseInt p1) in
                Inr (Unix sec (int64 (nsec * 1000))))))"

text \<open>\<^verbatim>\<open>fmt.Sprintf("%d", n)\<close> for an \<^verbatim>\<open>int64\<close>.\<close>

fun showNat :: "nat \<Rightarrow> string" where
  "showNat n =
     (if n < 10 then [''0123456789'' ! n]
      else showNat (n div 10) @ [''0123456789'' ! (n mod 10)])"

definition showInt :: "int \<Rightarrow> string" where
  "showInt i = (if i < 0 then CHR ''-'' # showNat (nat (- i)) else showNat (nat i))"

text \<open>
  \<^verbatim>\<open>TimeToSlackTS\<close>: the microseconds since the epoch in decimal, with a point before
  the last six bytes. The slice expressions panic when there are fewer than six bytes.
\<close>

definition TimeToSlackTS :: "Time \<Rightarrow> panic + string" where
  "TimeToSlackTS t =
     (let ts = showInt (quo (UnixNano t) 1000) in
      if length ts < 6 then Inl SliceOutOfRange
      else Inr (take (length ts - 6) ts @ ''.'' @ drop (length ts - 6) ts))"

subsection \<open>The Slack client\<close>

text \<open>
  The records below carry the fields of the \<^verbatim>\<open>slack-go\<close> structures that \<^verbatim>\<open>cli.go\<close>
  reads or writes. A Go \<^verbatim>\<open>error\<close> is the text its \<^verbatim>\<open>Error()\<close> method returns.
\<close>

type_synonym error = string

record User =
  u_ID :: string
  u_Name :: string

record Channel =
  c_ID :: string
  c_Name :: string
  c_User :: string
  c_IsIM :: bool
  c_IsMpIM :: bool
  c_IsPrivate :: bool

record Message =
  m_Channel :: string
  m_User :: string
  m_Text :: string
  m_Timestamp :: string
  m_ThreadTimestamp :: string

record File =
  f_ID :: string
  f_Name :: string
  f_User :: string
  f_Created :: int

record GetConversationsParameters =
  gc_Types :: "string list"
  gc_Cursor :: string

record ListFilesParameters =
  lf_Limit :: int
  lf_Channel :: string
  lf_User :: string
  lf_Cursor :: string

record GetConversationHistoryParameters =
  gh_ChannelID :: string
  gh_Cursor :: string
  gh_Limit :: int

record GetConversationHistoryResponse =
  hr_Messages :: "Message list"
  hr_HasMore :: bool
  hr_NextCursor :: string

record GetConversationRepliesParameters =
  gr_ChannelID :: string
  gr_Timestamp :: string
  gr_Cursor :: string
  gr_Limit :: int

text \<open>
  The remote workspace is a value of an arbitrary type \<open>'w\<close>; every method of the client
  takes the workspace and returns its answer with the workspace after the call. A method
  whose results the source reads only when the error is \<^verbatim>\<open>nil\<close> answers with a sum
  (\<open>Inl\<close> the error). \<^verbatim>\<open>ListFiles\<close> answers with all three of its Go results, the
  second one a pointer that may be \<^verbatim>\<open>nil\<close>, because \<^verbatim>\<open>Files\<close> reads them after an
  error too.
\<close>

record 'w Client =
  GetUsers :: "'w \<Rightarrow> (error + User list) \<times> 'w"
  GetConversations ::
    "GetConversationsParameters \<Rightarrow> 'w \<Rightarrow> (error + Channel list \<times> string) \<times> 'w"
  ListFiles ::
    "ListFilesParameters \<Rightarrow> 'w
       \<Rightarrow> (File list \<times> ListFilesParameters option \<times> error option) \<times> 'w"
  GetConversationHistory ::
    "GetConversationHistoryParameters \<Rightarrow> 'w
       \<Rightarrow> (error + GetConversationHistoryResponse) \<times> 'w"
  GetConversationReplies ::
    "GetConversationRepliesParameters \<Rightarrow> 'w
       \<Rightarrow> (error + Message list \<times> bool \<times> string) \<times> 'w"
  DeleteMessage :: "string \<Rightarrow> string \<Rightarrow> 'w \<Rightarrow> (error + string \<times> string) \<times> 'w"
  DeleteFile :: "string \<Rightarrow> 'w \<Rightarrow> error option \<times> 'w"

text \<open>
  What a run does to the outside is recorded as a trace: every call of a client method
  with its arguments, and every \<^verbatim>\<open>time.Sleep\<close> with its duration in milliseconds.
\<close>

datatype call =
    GetUsersCall
  | GetConversationsCall GetConversationsParameters
  | ListFilesCall ListFilesParameters
  | GetConversationHistoryCall GetConversationHistoryParameters
  | GetConversationRepliesCall GetConversationRepliesParameters
  | DeleteMessageCall string string
  | DeleteFileCall string

datatype event = Call call | Sleep nat

record 'w state =
  world :: 'w
  trace :: "event list"

text \<open>
  The loops of the source have no bound, so each is a recursion on a number of
  iterations still allowed; \<open>OutOfFuel\<close> says that the loop was still running when the
  allowance ended.
\<close>

datatype 'a result = Ok 'a | Panic panic | OutOfFuel

definition emit :: "event \<Rightarrow> 'w state \<Rightarrow> 'w state" where
  "emit e st = st\<lparr>trace := trace st @ [e]\<rparr>"

definition invoke :: "call \<Rightarrow> ('w \<Rightarrow> 'r \<times> 'w) \<Rightarrow> 'w state \<Rightarrow> 'r \<times> 'w state" where
  "invoke c f st =
     (case f (world st) of (r, w') \<Rightarrow> (r, \<lparr>world = w', trace = trace st @ [Call c]\<rparr>))"

definition andThen ::
  "'a result \<times> 's \<Rightarrow> ('a \<Rightarrow> 's \<Rightarrow> 'b result \<times> 's) \<Rightarrow> 'b result \<times> 's" where
  "andThen m f =
     (case m of
        (Ok a, s) \<Rightarrow> f a s
      | (Panic p, s) \<Rightarrow> (Panic p, s)
      | (OutOfFuel, s) \<Rightarrow> (OutOfFuel, s))"

subsection \<open>SlackClean and New\<close>

record 'w SlackClean =
  client :: "'w Client"
  beforeTS :: string
  beforeTSUnix :: int

record SlackCleanOptions =
  o_Before :: string
  o_Token :: string

text \<open>
  The libraries and the process environment the program calls into:
  \<^verbatim>\<open>os.Getenv("MY_SLACK_TOKEN")\<close>, \<^verbatim>\<open>time.Parse("20060102-1504", _)\<close>,
  \<^verbatim>\<open>regexp.Compile\<close> (a compiled expression is its \<^verbatim>\<open>MatchString\<close>), and
  \<^verbatim>\<open>slack.New\<close>.
\<close>

record 'w Env =
  getenv_MY_SLACK_TOKEN :: string
  time_Parse :: "string \<Rightarrow> error + Time"
  regexp_Compile :: "string \<Rightarrow> error + (string \<Rightarrow> bool)"
  slack_New :: "string \<Rightarrow> 'w Client"

definition New :: "'w Env \<Rightarrow> SlackCleanOptions \<Rightarrow> panic + 'w SlackClean" where
  "New env opts =
     (case time_Parse env (o_Before opts) of
        Inl err \<Rightarrow> Inl (PanicErr err)
      | Inr t \<Rightarrow>
          (case TimeToSlackTS t of
             Inl e \<Rightarrow> Inl e
           | Inr ts \<Rightarrow>
               Inr \<lparr>client = slack_New env (o_Token opts), beforeTS = ts,
                    beforeTSUnix = unixSec t\<rparr>))"

subsection \<open>ratelimitOrPanic\<close>

definition ratelimitOrPanic :: "error \<Rightarrow> 'w state \<Rightarrow> unit result \<times> 'w state" where
  "ratelimitOrPanic err st =
     (if \<not> Contains err ''rate limit'' then (Panic (PanicErr err), st)
      else (Ok (), emit (Sleep 1000) st))"

subsection \<open>Users\<close>

text \<open>Reading a Go map: a missing key reads as the empty string.\<close>

definition map_get :: "(string \<rightharpoonup> string) \<Rightarrow> string \<Rightarrow> string" where
  "map_get m k = (case m k of None \<Rightarrow> [] | Some v \<Rightarrow> v)"

fun Users_loop ::
  "string \<Rightarrow> User list \<Rightarrow> (string \<rightharpoonup> string) \<times> string \<Rightarrow> (string \<rightharpoonup> string) \<times> string" where
  "Users_loop user [] (users, userID) = (users, userID)"
| "Users_loop user (u # us) (users, userID) =
     Users_loop user us
       (users(u_ID u \<mapsto> u_Name u),
        if user \<noteq> [] \<and> u_Name u = user then u_ID u else userID)"

definition Users ::
  "'w SlackClean \<Rightarrow> string \<Rightarrow> 'w state
     \<Rightarrow> ((string \<rightharpoonup> string) \<times> string) result \<times> 'w state" where
  "Users s user st =
     (case invoke GetUsersCall (GetUsers (client s)) st of
        (Inl err, st1) \<Rightarrow> (Panic (PanicErr err), st1)
      | (Inr res, st1) \<Rightarrow>
          (case Users_loop user res (Map.empty, []) of
             (users, userID) \<Rightarrow>
               if user \<noteq> [] \<and> userID = []
               then (Panic (PanicMsg (''could not find user: '' @ user)), st1)
               else (Ok (users, userID), st1)))"

subsection \<open>Channels\<close>

text \<open>
  The expression compiled from the \<^verbatim>\<open>--filter\<close> flag; \<^verbatim>\<open>regexp.MustCompile\<close> panics
  when the pattern does not compile. No filter leaves \<^verbatim>\<open>re\<close> \<^verbatim>\<open>nil\<close>.
\<close>

definition filter_pattern :: "string \<Rightarrow> string" where
  "filter_pattern flt = ''(?i)('' @ ReplaceAll flt CHR '','' CHR ''|'' @ '')''"

definition filter_regexp :: "'w Env \<Rightarrow> string \<Rightarrow> panic + (string \<Rightarrow> bool) option" where
  "filter_regexp env flt =
     (if flt \<noteq> [] then
        (case regexp_Compile env (filter_pattern flt) of
           Inl err \<Rightarrow> Inl (PanicErr err)
         | Inr re \<Rightarrow> Inr (Some re))
      else Inr None)"

text \<open>The branches of the loop over one page of conversations, in the source's order.\<close>

definition nil_or_MatchString :: "(string \<Rightarrow> bool) option \<Rightarrow> string \<Rightarrow> bool" where
  \<comment> \<open>\<^verbatim>\<open>re == nil || re.MatchString(name)\<close>\<close>
  "nil_or_MatchString re name = (case re of None \<Rightarrow> True | Some r \<Rightarrow> r name)"

definition channel_selected ::
  "(string \<Rightarrow> bool) option \<Rightarrow> (string \<rightharpoonup> string) \<Rightarrow> Channel \<Rightarrow> bool" where
  "channel_selected re users c =
     (if c_IsMpIM c then nil_or_MatchString re (c_Name c)
      else if c_IsIM c then
        (let username = map_get users (c_User c) in nil_or_MatchString re username)
      else if c_IsPrivate c then nil_or_MatchString re (c_Name c)
      else nil_or_MatchString re (c_Name c))"

fun Channels_loop ::
  "nat \<Rightarrow> 'w SlackClean \<Rightarrow> (string \<Rightarrow> bool) option \<Rightarrow> (string \<rightharpoonup> string) \<Rightarrow> string
     \<Rightarrow> Channel list \<Rightarrow> 'w state \<Rightarrow> Channel list result \<times> 'w state" where
  "Channels_loop 0 s re users cursor channels st = (OutOfFuel, st)"
| "Channels_loop (Suc n) s re users cursor channels st =
     (let p = \<lparr>gc_Types = [''public_channel'', ''private_channel'', ''mpim'', ''im''],
               gc_Cursor = cursor\<rparr> in
      case invoke (GetConversationsCall p) (GetConversations (client s) p) st of
        (Inl err, st1) \<Rightarrow>
          (case ratelimitOrPanic err st1 of
             (Ok u, st2) \<Rightarrow> Channels_loop n s re users cursor channels st2
           | (Panic x, st2) \<Rightarrow> (Panic x, st2)
           | (OutOfFuel, st2) \<Rightarrow> (OutOfFuel, st2))
      | (Inr (res, next), st1) \<Rightarrow>
          (let channels1 = channels @ filter (channel_selected re users) res in
           if next = [] then (Ok channels1, st1)
           else Channels_loop n s re users next channels1 st1))"

definition Channels ::
  "nat \<Rightarrow> 'w Env \<Rightarrow> 'w SlackClean \<Rightarrow> string \<Rightarrow> (string \<rightharpoonup> string) \<Rightarrow> 'w state
     \<Rightarrow> Channel list result \<times> 'w state" where
  "Channels fuel env s flt users st =
     (case filter_regexp env flt of
        Inl x \<Rightarrow> (Panic x, st)
      | Inr re \<Rightarrow> Channels_loop fuel s re users [] [] st)"

subsection \<open>Files\<close>

text \<open>
  The inner loop of \<^verbatim>\<open>Files\<close>. The statement \<^verbatim>\<open>res, p, err := s.c.ListFiles(*p)\<close>
  declares a new \<^verbatim>\<open>p\<close> in the loop body: the argument \<^verbatim>\<open>*p\<close> is the outer
  parameter block in every iteration, and the cursor test reads the returned one. After
  an error that \<^verbatim>\<open>ratelimitOrPanic\<close> lets pass, the body goes on with the results of
  the failed call.
\<close>

fun Files_pages ::
  "nat \<Rightarrow> 'w SlackClean \<Rightarrow> ListFilesParameters \<Rightarrow> File list \<Rightarrow> 'w state
     \<Rightarrow> File list result \<times> 'w state" where
  "Files_pages 0 s p filesToDelete st = (OutOfFuel, st)"
| "Files_pages (Suc n) s p filesToDelete st =
     (case invoke (ListFilesCall p) (ListFiles (client s) p) st of
        ((res, p1, err), st1) \<Rightarrow>
          (case (case err of None \<Rightarrow> (Ok (), st1) | Some e \<Rightarrow> ratelimitOrPanic e st1) of
             (Panic x, st2) \<Rightarrow> (Panic x, st2)
           | (OutOfFuel, st2) \<Rightarrow> (OutOfFuel, st2)
           | (Ok u, st2) \<Rightarrow>
               (let filesToDelete1 =
                      filesToDelete @ filter (\<lambda>f. f_Created f < beforeTSUnix s) res in
                case p1 of
                  None \<Rightarrow> (Panic NilDereference, st2)
                | Some q \<Rightarrow>
                    if lf_Cursor q = [] then (Ok filesToDelete1, st2)
                    else Files_pages n s p filesToDelete1 st2)))"

fun Files_channels ::
  "nat \<Rightarrow> 'w SlackClean \<Rightarrow> string \<Rightarrow> Channel list \<Rightarrow> File list \<Rightarrow> 'w state
     \<Rightarrow> File list result \<times> 'w state" where
  "Files_channels fuel s userID [] filesToDelete st = (Ok filesToDelete, st)"
| "Files_channels fuel s userID (c # cs) filesToDelete st =
     (let p0 = \<lparr>lf_Limit = 100, lf_Channel = c_ID c, lf_User = [], lf_Cursor = []\<rparr>;
          p = (if userID \<noteq> [] then p0\<lparr>lf_User := userID\<rparr> else p0) in
      case Files_pages fuel s p filesToDelete st of
        (Ok filesToDelete1, st1) \<Rightarrow> Files_channels fuel s userID cs filesToDelete1 st1
      | (Panic x, st1) \<Rightarrow> (Panic x, st1)
      | (OutOfFuel, st1) \<Rightarrow> (OutOfFuel, st1))"

definition Files ::
  "nat \<Rightarrow> 'w SlackClean \<Rightarrow> string \<Rightarrow> Channel list \<Rightarrow> 'w state
     \<Rightarrow> File list result \<times> 'w state" where
  "Files fuel s userID channels st = Files_channels fuel s userID channels [] st"

subsection \<open>Messages\<close>

text \<open>
  The loop over one page of replies: each reply gets the conversation's id and is
  appended; the print statement that follows decodes the reply's timestamp.
\<close>

fun append_replies :: "string \<Rightarrow> Message list \<Rightarrow> Message list \<Rightarrow> panic + Message list" where
  "append_replies cid [] messagesToDelete = Inr messagesToDelete"
| "append_replies cid (r # rs) messagesToDelete =
     (case SlackTSToTime (m_Timestamp r) of
        Inl e \<Rightarrow> Inl e
      | Inr t \<Rightarrow> append_replies cid rs (messagesToDelete @ [r\<lparr>m_Channel := cid\<rparr>]))"

fun Replies_loop ::
  "nat \<Rightarrow> 'w SlackClean \<Rightarrow> string \<Rightarrow> GetConversationRepliesParameters \<Rightarrow> Message list
     \<Rightarrow> 'w state \<Rightarrow> Message list result \<times> 'w state" where
  "Replies_loop 0 s cid p messagesToDelete st = (OutOfFuel, st)"
| "Replies_loop (Suc n) s cid p messagesToDelete st =
     (case invoke (GetConversationRepliesCall p) (GetConversationReplies (client s) p) st of
        (Inl err, st1) \<Rightarrow>
          (case ratelimitOrPanic err st1 of
             (Ok u, st2) \<Rightarrow> Replies_loop n s cid p messagesToDelete st2
           | (Panic x, st2) \<Rightarrow> (Panic x, st2)
           | (OutOfFuel, st2) \<Rightarrow> (OutOfFuel, st2))
      | (Inr (replies, hasMore, nextCursor), st1) \<Rightarrow>
          (case append_replies cid replies messagesToDelete of
             Inl e \<Rightarrow> (Panic e, st1)
           | Inr messagesToDelete1 \<Rightarrow>
               if \<not> hasMore then (Ok messagesToDelete1, st1)
               else Replies_loop n s cid (p\<lparr>gr_Cursor := nextCursor\<rparr>) messagesToDelete1 st1))"

text \<open>
  The loop over one page of messages. A message of the user \<^verbatim>\<open>userID\<close> is kept, a message
  whose timestamp is greater than \<^verbatim>\<open>beforeTS\<close> as a string is kept, and every other
  message is selected; the print statement decodes its timestamp. The counters
  \<^verbatim>\<open>found\<close>, \<^verbatim>\<open>keep\<close>, \<^verbatim>\<open>total\<close> and \<^verbatim>\<open>last\<close> only feed the printed text.
\<close>

fun Messages_page ::
  "nat \<Rightarrow> 'w SlackClean \<Rightarrow> Channel \<Rightarrow> string \<Rightarrow> Message list \<Rightarrow> Message list \<Rightarrow> 'w state
     \<Rightarrow> Message list result \<times> 'w state" where
  "Messages_page fuel s c userID [] messagesToDelete st = (Ok messagesToDelete, st)"
| "Messages_page fuel s c userID (m # ms) messagesToDelete st =
     (if userID \<noteq> [] \<and> m_User m = userID then
        Messages_page fuel s c userID ms messagesToDelete st
      else if string_lt (beforeTS s) (m_Timestamp m) then
        Messages_page fuel s c userID ms messagesToDelete st
      else
        (case SlackTSToTime (m_Timestamp m) of
           Inl e \<Rightarrow> (Panic e, st)
         | Inr t \<Rightarrow>
             (let m1 = m\<lparr>m_Channel := c_ID c\<rparr>;
                  messagesToDelete1 = messagesToDelete @ [m1] in
              if m_ThreadTimestamp m1 \<noteq> [] \<and> m_Timestamp m1 = m_ThreadTimestamp m1 then
                (let p = \<lparr>gr_ChannelID = m_Channel m1, gr_Timestamp = m_Timestamp m1,
                          gr_Cursor = [], gr_Limit = 1000\<rparr> in
                 case Replies_loop fuel s (c_ID c) p messagesToDelete1 st of
                   (Ok messagesToDelete2, st1) \<Rightarrow>
                     Messages_page fuel s c userID ms messagesToDelete2 st1
                 | (Panic x, st1) \<Rightarrow> (Panic x, st1)
                 | (OutOfFuel, st1) \<Rightarrow> (OutOfFuel, st1))
              else Messages_page fuel s c userID ms messagesToDelete1 st)))"

fun History_loop ::
  "nat \<Rightarrow> nat \<Rightarrow> 'w SlackClean \<Rightarrow> Channel \<Rightarrow> string \<Rightarrow> string \<Rightarrow> Message list \<Rightarrow> 'w state
     \<Rightarrow> Message list result \<times> 'w state" where
  "History_loop fuel 0 s c userID cursor messagesToDelete st = (OutOfFuel, st)"
| "History_loop fuel (Suc n) s c userID cursor messagesToDelete st =
     (let p = \<lparr>gh_ChannelID = c_ID c, gh_Cursor = cursor, gh_Limit = 1000\<rparr> in
      case invoke (GetConversationHistoryCall p) (GetConversationHistory (client s) p) st of
        (Inl err, st1) \<Rightarrow>
          (case ratelimitOrPanic err st1 of
             (Ok u, st2) \<Rightarrow> History_loop fuel n s c userID cursor messagesToDelete st2
           | (Panic x, st2) \<Rightarrow> (Panic x, st2)
           | (OutOfFuel, st2) \<Rightarrow> (OutOfFuel, st2))
      | (Inr res, st1) \<Rightarrow>
          (case Messages_page fuel s c userID (hr_Messages res) messagesToDelete st1 of
             (Ok messagesToDelete1, st2) \<Rightarrow>
               if \<not> hr_HasMore res then (Ok messagesToDelete1, st2)
               else History_loop fuel n s c userID (hr_NextCursor res) messagesToDelete1 st2
           | (Panic x, st2) \<Rightarrow> (Panic x, st2)
           | (OutOfFuel, st2) \<Rightarrow> (OutOfFuel, st2)))"

fun Messages_channels ::
  "nat \<Rightarrow> 'w SlackClean \<Rightarrow> Channel list \<Rightarrow> string \<Rightarrow> Message list \<Rightarrow> 'w state
     \<Rightarrow> Message list result \<times> 'w state" where
  "Messages_channels fuel s [] userID messagesToDelete st = (Ok messagesToDelete, st)"
| "Messages_channels fuel s (c # cs) userID messagesToDelete st =
     (case History_loop fuel fuel s c userID [] messagesToDelete st of
        (Ok messagesToDelete1, st1) \<Rightarrow> Messages_channels fuel s cs userID messagesToDelete1 st1
      | (Panic x, st1) \<Rightarrow> (Panic x, st1)
      | (OutOfFuel, st1) \<Rightarrow> (OutOfFuel, st1))"

definition Messages ::
  "nat \<Rightarrow> 'w SlackClean \<Rightarrow> Channel list \<Rightarrow> string \<Rightarrow> 'w state
     \<Rightarrow> Message list result \<times> 'w state" where
  "Messages fuel s channels userID st = Messages_channels fuel s channels userID [] st"

subsection \<open>DeleteMessages and DeleteFiles\<close>

fun DeleteMessage_loop ::
  "nat \<Rightarrow> 'w SlackClean \<Rightarrow> Message \<Rightarrow> 'w state \<Rightarrow> unit result \<times> 'w state" where
  "DeleteMessage_loop 0 s m st = (OutOfFuel, st)"
| "DeleteMessage_loop (Suc n) s m st =
     (case invoke (DeleteMessageCall (m_Channel m) (m_Timestamp m))
             (DeleteMessage (client s) (m_Channel m) (m_Timestamp m)) st of
        (Inl err, st1) \<Rightarrow>
          if err = ''message_not_found'' then (Ok (), st1)
          else
            (case ratelimitOrPanic err st1 of
               (Ok u, st2) \<Rightarrow> DeleteMessage_loop n s m st2
             | (Panic x, st2) \<Rightarrow> (Panic x, st2)
             | (OutOfFuel, st2) \<Rightarrow> (OutOfFuel, st2))
      | (Inr (ch, ts), st1) \<Rightarrow> (Ok (), st1))"

fun DeleteMessages ::
  "nat \<Rightarrow> 'w SlackClean \<Rightarrow> Message list \<Rightarrow> 'w state \<Rightarrow> unit result \<times> 'w state" where
  "DeleteMessages fuel s [] st = (Ok (), st)"
| "DeleteMessages fuel s (m # ms) st =
     (case DeleteMessage_loop fuel s m st of
        (Ok u, st1) \<Rightarrow> DeleteMessages fuel s ms (emit (Sleep 50) st1)
      | (Panic x, st1) \<Rightarrow> (Panic x, st1)
      | (OutOfFuel, st1) \<Rightarrow> (OutOfFuel, st1))"

fun DeleteFile_loop ::
  "nat \<Rightarrow> 'w SlackClean \<Rightarrow> File \<Rightarrow> 'w state \<Rightarrow> unit result \<times> 'w state" where
  "DeleteFile_loop 0 s f st = (OutOfFuel, st)"
| "DeleteFile_loop (Suc n) s f st =
     (case invoke (DeleteFileCall (f_ID f)) (DeleteFile (client s) (f_ID f)) st of
        (Some err, st1) \<Rightarrow>
          if err = ''file_not_found'' then (Ok (), st1)
          else
            (case ratelimitOrPanic err st1 of
               (Ok u, st2) \<Rightarrow> DeleteFile_loop n s f st2
             | (Panic x, st2) \<Rightarrow> (Panic x, st2)
             | (OutOfFuel, st2) \<Rightarrow> (OutOfFuel, st2))
      | (None, st1) \<Rightarrow> (Ok (), st1))"

fun DeleteFiles ::
  "nat \<Rightarrow> 'w SlackClean \<Rightarrow> File list \<Rightarrow> 'w state \<Rightarrow> unit result \<times> 'w state" where
  "DeleteFiles fuel s [] st = (Ok (), st)"
| "DeleteFiles fuel s (f # fs) st =
     (case DeleteFile_loop fuel s f st of
        (Ok u, st1) \<Rightarrow> DeleteFiles fuel s fs (emit (Sleep 50) st1)
      | (Panic x, st1) \<Rightarrow> (Panic x, st1)
      | (OutOfFuel, st1) \<Rightarrow> (OutOfFuel, st1))"

subsection \<open>main\<close>

record Flags =
  fl_token :: string
  fl_user :: string
  fl_filter :: string
  fl_before :: string
  fl_commit :: bool

text \<open>
  How \<^verbatim>\<open>main\<close> ends when it does not panic: \<^verbatim>\<open>os.Exit(0)\<close> after the report of a
  dry run, or the return after both delete passes. Both carry the two numbers of the
  report, \<^verbatim>\<open>len(messages)\<close> and \<^verbatim>\<open>len(files)\<close>.
\<close>

datatype finish = Exit0 nat nat | Returned nat nat

definition main :: "nat \<Rightarrow> 'w Env \<Rightarrow> Flags \<Rightarrow> 'w state \<Rightarrow> finish result \<times> 'w state" where
  "main fuel env flags st =
     (let token = (if fl_token flags = [] then getenv_MY_SLACK_TOKEN env else fl_token flags) in
      if token = [] then
        (Panic (PanicMsg ''--token flag (or MY_SLACK_TOKEN env var) required but missing''), st)
      else if fl_before flags = [] then
        (Panic (PanicMsg ''--before flag is required but missing''), st)
      else
        (case New env \<lparr>o_Before = fl_before flags, o_Token = token\<rparr> of
           Inl x \<Rightarrow> (Panic x, st)
         | Inr s \<Rightarrow>
             andThen (Users s (fl_user flags) st) (\<lambda>(users, userID) st1.
             andThen (Channels fuel env s (fl_filter flags) users st1) (\<lambda>channels st2.
             andThen (Files fuel s userID channels st2) (\<lambda>files st3.
             andThen (Messages fuel s channels userID st3) (\<lambda>messages st4.
               if \<not> fl_commit flags then (Ok (Exit0 (length messages) (length files)), st4)
               else
                 andThen (DeleteMessages fuel s messages st4) (\<lambda>u st5.
                 andThen (DeleteFiles fuel s files st5) (\<lambda>v st6.
                   (Ok (Returned (length messages) (length files)), st6)))))))))"

subsection \<open>Vocabulary of the specification\<close>

text \<open>
  The specification speaks of a part of a timestamp being an integer. This is its
  reading for the decimal notation \<^verbatim>\<open>ParseInt\<close> accepts: an optional sign followed
  by at least one digit.
\<close>

definition is_integer_text :: "string \<Rightarrow> bool" where
  "is_integer_text s =
     (case s of
        [] \<Rightarrow> False
      | c # cs \<Rightarrow>
          if c = CHR ''+'' \<or> c = CHR ''-'' then cs \<noteq> [] \<and> list_all isDigit cs
          else list_all isDigit (c # cs))"

text \<open>
  The number a string of decimal digits denotes; the specification compares decoded
  timestamps numerically.
\<close>

fun decimal_value :: "string \<Rightarrow> int" where
  "decimal_value [] = 0"
| "decimal_value (c # cs) = digitVal c * 10 ^ length cs + decimal_value cs"

subsection \<open>A small workspace to run the program on\<close>

text \<open>
  A workspace that answers every listing in one page and never limits the rate: its
  identities, its conversations, and its messages and files, each paired with the id of
  the conversation it is in. A history lists the messages of a conversation that are not
  replies; the replies of a thread are the other messages that carry the root's
  timestamp as thread timestamp. Deleting removes the item, and answers
  \<^verbatim>\<open>message_not_found\<close> or \<^verbatim>\<open>file_not_found\<close> when the item is not there.
\<close>

record workspace =
  ws_users :: "User list"
  ws_channels :: "Channel list"
  ws_messages :: "(string \<times> Message) list"
  ws_files :: "(string \<times> File) list"

definition is_message :: "string \<Rightarrow> string \<Rightarrow> string \<times> Message \<Rightarrow> bool" where
  "is_message ch ts cm = (fst cm = ch \<and> m_Timestamp (snd cm) = ts)"

definition workspace_client :: "workspace Client" where
  "workspace_client =
     \<lparr>GetUsers = (\<lambda>w. (Inr (ws_users w), w)),
      GetConversations = (\<lambda>p w. (Inr (ws_channels w, []), w)),
      ListFiles = (\<lambda>p w.
        ((map snd (filter (\<lambda>(ch, f). ch = lf_Channel p \<and> (lf_User p = [] \<or> f_User f = lf_User p))
                    (ws_files w)),
          Some p, None), w)),
      GetConversationHistory = (\<lambda>p w.
        (Inr \<lparr>hr_Messages =
                 map snd (filter (\<lambda>(ch, m). ch = gh_ChannelID p \<and>
                               (m_ThreadTimestamp m = [] \<or> m_ThreadTimestamp m = m_Timestamp m))
                   (ws_messages w)),
               hr_HasMore = False, hr_NextCursor = []\<rparr>, w)),
      GetConversationReplies = (\<lambda>p w.
        (Inr (map snd (filter (\<lambda>(ch, m). ch = gr_ChannelID p \<and>
                            m_ThreadTimestamp m = gr_Timestamp p \<and> m_Timestamp m \<noteq> gr_Timestamp p)
                (ws_messages w)),
              False, []), w)),
      DeleteMessage = (\<lambda>ch ts w.
        if list_ex (is_message ch ts) (ws_messages w)
        then (Inr (ch, ts), w\<lparr>ws_messages := filter (\<lambda>cm. \<not> is_message ch ts cm) (ws_messages w)\<rparr>)
        else (Inl ''message_not_found'', w)),
      DeleteFile = (\<lambda>fid w.
        if list_ex (\<lambda>(ch, f). f_ID f = fid) (ws_files w)
        then (None, w\<lparr>ws_files := filter (\<lambda>(ch, f). f_ID f \<noteq> fid) (ws_files w)\<rparr>)
        else (Some ''file_not_found'', w))\<rparr>"

text \<open>
  The workspace of the examples: the users \<^verbatim>\<open>alice\<close> (U1) and \<^verbatim>\<open>bob\<close> (U2), the public
  conversation \<^verbatim>\<open>general\<close> (C1) holding the given messages and files, and a run with
  \<^verbatim>\<open>--before 20200501-0000\<close>, which \<^verbatim>\<open>time.Parse\<close> reads as 1588291200 s after the
  epoch.
\<close>

definition alice :: User where
  "alice = \<lparr>u_ID = ''U1'', u_Name = ''alice''\<rparr>"

definition bob :: User where
  "bob = \<lparr>u_ID = ''U2'', u_Name = ''bob''\<rparr>"

definition general :: Channel where
  "general = \<lparr>c_ID = ''C1'', c_Name = ''general'', c_User = [], c_IsIM = False,
              c_IsMpIM = False, c_IsPrivate = False\<rparr>"

definition message :: "string \<Rightarrow> string \<Rightarrow> string \<Rightarrow> Message" where
  "message user ts thread_ts =
     \<lparr>m_Channel = [], m_User = user, m_Text = ''hello'', m_Timestamp = ts,
      m_ThreadTimestamp = thread_ts\<rparr>"

definition upload :: "string \<Rightarrow> string \<Rightarrow> int \<Rightarrow> File" where
  "upload fid user created = \<lparr>f_ID = fid, f_Name = ''a.png'', f_User = user, f_Created = created\<rparr>"

definition demo_workspace :: "Message list \<Rightarrow> File list \<Rightarrow> workspace" where
  "demo_workspace msgs files =
     \<lparr>ws_users = [alice, bob], ws_channels = [general],
      ws_messages = map (Pair ''C1'') msgs, ws_files = map (Pair ''C1'') files\<rparr>"

definition demo_env :: "workspace Env" where
  "demo_env =
     \<lparr>getenv_MY_SLACK_TOKEN = [],
      time_Parse = (\<lambda>text. if text = ''20200501-0000''
                            then Inr \<lparr>unixSec = 1588291200, nsecOf = 0\<rparr>
                            else Inl ''parsing time: cannot parse''),
      regexp_Compile = (\<lambda>pattern. Inr (\<lambda>name. True)),
      slack_New = (\<lambda>token. workspace_client)\<rparr>"

definition demo_flags :: "string \<Rightarrow> bool \<Rightarrow> Flags" where
  "demo_flags user commit =
     \<lparr>fl_token = ''xoxp-1'', fl_user = user, fl_filter = [], fl_before = ''20200501-0000'',
      fl_commit = commit\<rparr>"

definition demo_clean :: "workspace SlackClean" where
  "demo_clean = \<lparr>client = workspace_client, beforeTS = ''1588291200.000000'',
                 beforeTSUnix = 1588291200\<rparr>"

text \<open>
  A client whose workspace is a countdown: while the number is positive and below 100
  every call fails with the rate-limit error of \<^verbatim>\<open>slack-go\<close> and the number goes down
  by one; at 0 every call succeeds with an empty answer; from 100 on every call fails
  with \<^verbatim>\<open>channel_not_found\<close>.
\<close>

definition countdown_error :: "nat \<Rightarrow> error option" where
  "countdown_error w =
     (if w = 0 then None
      else if w < 100 then Some ''slack rate limit exceeded, retry after 1s''
      else Some ''channel_not_found'')"

definition countdown_answer :: "'a \<Rightarrow> nat \<Rightarrow> (error + 'a) \<times> nat" where
  "countdown_answer a w =
     (case countdown_error w of None \<Rightarrow> (Inr a, w) | Some e \<Rightarrow> (Inl e, w - 1))"

definition countdown_client :: "nat Client" where
  "countdown_client =
     \<lparr>GetUsers = countdown_answer [],
      GetConversations = (\<lambda>p. countdown_answer ([], [])),
      ListFiles = (\<lambda>p w.
        case countdown_error w of
          None \<Rightarrow> (([], Some p, None), w)
        | Some e \<Rightarrow> (([], None, Some e), w - 1)),
      GetConversationHistory = (\<lambda>p.
        countdown_answer \<lparr>hr_Messages = [], hr_HasMore = False, hr_NextCursor = []\<rparr>),
      GetConversationReplies = (\<lambda>p. countdown_answer ([], False, [])),
      DeleteMessage = (\<lambda>ch ts. countdown_answer (ch, ts)),
      DeleteFile = (\<lambda>fid w.
        case countdown_error w of None \<Rightarrow> (None, w) | Some e \<Rightarrow> (Some e, w - 1))\<rparr>"

subsection \<open>Vocabulary for traces\<close>

text \<open>An event is a delete operation when it is a call of one of the two delete methods.\<close>

fun is_delete :: "event \<Rightarrow> bool" where
  "is_delete (Call (DeleteMessageCall ch ts)) = True"
| "is_delete (Call (DeleteFileCall fid)) = True"
| "is_delete e = False"

definition no_delete :: "'w state \<Rightarrow> bool" where
  "no_delete st = list_all (\<lambda>e. \<not> is_delete e) (trace st)"

subsection \<open>The replies of a thread, as the workspace lists them\<close>

text \<open>
  \<open>reply_pages cl p w rs w'\<close>: asked for the replies of a thread with the parameters
  \<open>p\<close>, starting in the workspace \<open>w\<close>, the client lists the replies \<open>rs\<close>, page after
  page by the cursor each page returns and until a page says that there are no more,
  with rate-limited refusals in between; \<open>w'\<close> is the workspace after the last page.
\<close>

inductive reply_pages ::
  "'w Client \<Rightarrow> GetConversationRepliesParameters \<Rightarrow> 'w \<Rightarrow> Message list \<Rightarrow> 'w \<Rightarrow> bool" where
  last_page:
    "GetConversationReplies cl p w = (Inr (rs, False, nc), w1) \<Longrightarrow> reply_pages cl p w rs w1"
| next_page:
    "GetConversationReplies cl p w = (Inr (rs, True, nc), w1)
       \<Longrightarrow> reply_pages cl (p\<lparr>gr_Cursor := nc\<rparr>) w1 rest w2
       \<Longrightarrow> reply_pages cl p w (rs @ rest) w2"
| rate_limited:
    "GetConversationReplies cl p w = (Inl err, w1) \<Longrightarrow> Contains err ''rate limit''
       \<Longrightarrow> reply_pages cl p w1 rs w2
       \<Longrightarrow> reply_pages cl p w rs w2"

code_pred reply_pages .

subsection \<open>Vocabulary for rate limiting\<close>

text \<open>
  The error of an answer that is a sum; the workspace after \<open>k\<close> invocations of one
  operation in a row that were all refused with a rate-limit error (\<open>None\<close> when one of
  the \<open>k\<close> invocations is answered otherwise); and the events of \<open>k\<close> refused
  invocations of a call, each followed by the wait of one second.
\<close>

definition sum_error :: "error + 'a \<Rightarrow> error option" where
  "sum_error r = (case r of Inl e \<Rightarrow> Some e | Inr a \<Rightarrow> None)"

fun rate_limited_times ::
  "('w \<Rightarrow> 'r \<times> 'w) \<Rightarrow> ('r \<Rightarrow> error option) \<Rightarrow> nat \<Rightarrow> 'w \<Rightarrow> 'w option" where
  "rate_limited_times f errOf 0 w = Some w"
| "rate_limited_times f errOf (Suc k) w =
     (case f w of
        (r, w1) \<Rightarrow>
          (case errOf r of
             None \<Rightarrow> None
           | Some e \<Rightarrow>
               if Contains e ''rate limit'' then rate_limited_times f errOf k w1 else None))"

text \<open>The program's state for a run against the countdown client.\<close>

definition countdown_clean :: "nat SlackClean" where
  "countdown_clean = \<lparr>client = countdown_client, beforeTS = ''1588291200.000000'',
                      beforeTSUnix = 1588291200\<rparr>"

definition waited :: "call \<Rightarrow> nat \<Rightarrow> event list" where
  "waited c k = concat (replicate k [Call c, Sleep 1000])"

section \<open>Properties of the timestamp codec\<close>

subsection \<open>Splitting at the decimal point\<close>

lemma Split_not_Nil: "Split s sep \<noteq> []"
  by (induction s) (auto split: list.splits)

lemma Split_no_sep: "sep \<notin> set s \<Longrightarrow> Split s sep = [s]"
  by (induction s) auto

lemma Split_append_sep: "sep \<notin> set a \<Longrightarrow> Split (a @ sep # b) sep = a # Split b sep"
  by (induction a) auto

lemma Split_hd_takeWhile: "hd (Split s sep) = takeWhile (\<lambda>c. c \<noteq> sep) s"
  by (induction s) (auto split: list.splits simp: Split_not_Nil)

lemma SlackTSToTime_no_point:
  "CHR ''.'' \<notin> set ts \<Longrightarrow> SlackTSToTime ts = Inl IndexOutOfRange"
  by (simp add: SlackTSToTime_def Split_no_sep index_def)

lemma SlackTSToTime_point:
  assumes "CHR ''.'' \<notin> set a"
  shows "SlackTSToTime (a @ CHR ''.'' # b) =
    Inr (Unix (fst (ParseInt a))
           (int64 (fst (ParseInt (takeWhile (\<lambda>c. c \<noteq> CHR ''.'') b)) * 1000)))"
proof -
  obtain p ps where sp: "Split b CHR ''.'' = p # ps"
    using Split_not_Nil [of b "CHR ''.''"] by (cases "Split b CHR ''.''") auto
  have "p = takeWhile (\<lambda>c. c \<noteq> CHR ''.'') b"
    using Split_hd_takeWhile [of b "CHR ''.''"] sp by simp
  then show ?thesis
    using assms sp by (simp add: SlackTSToTime_def Split_append_sep index_def)
qed

text \<open>
  Claim C10. Decoding a timestamp is partial: a text without a decimal point makes
  \<^verbatim>\<open>SlackTSToTime\<close> index the second piece of a one-piece split, which panics with an
  index out of range; a text with a decimal point always decodes. So decoding returns a
  time exactly under the precondition that the text contains a decimal point.
\<close>

theorem SlackTSToTime_partial:
  "(CHR ''.'' \<notin> set ts \<longrightarrow> SlackTSToTime ts = Inl IndexOutOfRange) \<and>
   (CHR ''.'' \<in> set ts \<longrightarrow> (\<exists>t. SlackTSToTime ts = Inr t))"
proof (intro conjI impI)
  assume "CHR ''.'' \<notin> set ts"
  then show "SlackTSToTime ts = Inl IndexOutOfRange" by (rule SlackTSToTime_no_point)
next
  assume "CHR ''.'' \<in> set ts"
  then obtain a b where ab: "ts = a @ CHR ''.'' # b" "CHR ''.'' \<notin> set a"
    using split_list_first [of "CHR ''.''" ts] by blast
  show "\<exists>t. SlackTSToTime ts = Inr t"
    unfolding ab(1) using SlackTSToTime_point [OF ab(2)] by simp
qed

theorem SlackTSToTime_partial_witness:
  "SlackTSToTime ''1588291200'' = Inl IndexOutOfRange \<and>
   (\<exists>t. SlackTSToTime ''1588291200.000100'' = Inr t)"
  using SlackTSToTime_partial [of "''1588291200''"]
    SlackTSToTime_partial [of "''1588291200.000100''"]
  by simp

subsection \<open>Parts that are not integers\<close>

lemma ParseUint_loop_syntax:
  "\<not> list_all isDigit cs \<Longrightarrow> 0 \<le> n \<Longrightarrow> n < 10 ^ k \<Longrightarrow> k + length cs \<le> 19
     \<Longrightarrow> ParseUint_loop n cs = (0, Some ErrSyntax)"
proof (induction cs arbitrary: n k)
  case Nil
  then show ?case by simp
next
  case (Cons c cs)
  show ?case
  proof (cases "isDigit c")
    case False
    then show ?thesis by simp
  next
    case True
    have k18: "k \<le> 18" using Cons.prems(4) by simp
    have "(10::int) ^ k \<le> 10 ^ 18" using k18 by (intro power_increasing) auto
    then have n18: "n < 10 ^ 18" using Cons.prems(3) by linarith
    have d: "0 \<le> digitVal c" "digitVal c \<le> 9"
      using True by (auto simp: isDigit_def digitVal_def)
    have n1: "n * 10 + digitVal c < 10 ^ Suc k" using Cons.prems(3) d by simp
    have "(10::int) ^ Suc k \<le> 10 ^ 19" using k18 by (intro power_increasing) auto
    then have small: "n * 10 + digitVal c \<le> maxUint64"
      using n1 by (simp add: maxUint64_def)
    have rest: "\<not> list_all isDigit cs" using Cons.prems(1) True by simp
    have ih: "ParseUint_loop (n * 10 + digitVal c) cs = (0, Some ErrSyntax)"
      using Cons.IH [OF rest _ n1] Cons.prems(2,4) d by simp
    show ?thesis using True n18 small ih by (simp add: maxUint64_def Let_def)
  qed
qed

lemma ParseInt_syntax:
  assumes "\<not> is_integer_text s" "length s \<le> 19"
  shows "ParseInt s = (0, Some ErrSyntax)"
proof (cases s)
  case Nil
  then show ?thesis by (simp add: ParseInt_def)
next
  case (Cons c cs)
  show ?thesis
  proof (cases "c = CHR ''+'' \<or> c = CHR ''-''")
    case True
    then have bad: "cs = [] \<or> \<not> list_all isDigit cs"
      using assms(1) Cons by (auto simp: is_integer_text_def)
    have "ParseUint cs = (0, Some ErrSyntax)"
    proof (cases "cs = []")
      case True
      then show ?thesis by (simp add: ParseUint_def)
    next
      case False
      then have "\<not> list_all isDigit cs" using bad by simp
      then have "ParseUint_loop 0 cs = (0, Some ErrSyntax)"
        using ParseUint_loop_syntax [of cs 0 0] assms(2) Cons by simp
      then show ?thesis using False by (simp add: ParseUint_def)
    qed
    then show ?thesis using True Cons by (auto simp: ParseInt_def)
  next
    case False
    then have "\<not> list_all isDigit (c # cs)"
      using assms(1) Cons by (auto simp: is_integer_text_def)
    then have "ParseUint_loop 0 (c # cs) = (0, Some ErrSyntax)"
      using ParseUint_loop_syntax [of "c # cs" 0 0] assms(2) Cons by simp
    then have "ParseUint (c # cs) = (0, Some ErrSyntax)" by (simp add: ParseUint_def)
    then show ?thesis using False Cons by (simp add: ParseInt_def)
  qed
qed

text \<open>
  Claim C7, as stated, fails: the text \<^verbatim>\<open>abc.def\<close> has two parts that are not
  integers, and it decodes to the epoch instead of failing.
\<close>

theorem SlackTSToTime_malformed_counterexample:
  "\<not> is_integer_text ''abc'' \<and> \<not> is_integer_text ''def'' \<and>
   SlackTSToTime ''abc.def'' = Inr \<lparr>unixSec = 0, nsecOf = 0\<rparr>"
  by code_simp

text \<open>
  Claim C7, amended. \<^verbatim>\<open>SlackTSToTime\<close> splits the text at the decimal point and reads
  the first piece as whole seconds and the second as microseconds, and it has no error
  for a malformed part: both results of \<^verbatim>\<open>ParseInt\<close> are used with their errors
  dropped. A text whose first decimal point follows \<open>a\<close> decodes to the time built from
  whatever \<^verbatim>\<open>ParseInt\<close> yields for \<open>a\<close> and for the piece up to the next point, and
  \<^verbatim>\<open>ParseInt\<close> yields 0 for a piece of at most 19 bytes that is not an integer.
\<close>

theorem SlackTSToTime_discards_parse_errors:
  "(CHR ''.'' \<notin> set a \<longrightarrow>
      SlackTSToTime (a @ ''.'' @ b) =
        Inr (Unix (fst (ParseInt a))
               (int64 (fst (ParseInt (takeWhile (\<lambda>c. c \<noteq> CHR ''.'') b)) * 1000)))) \<and>
   (\<not> is_integer_text p \<and> length p \<le> 19 \<longrightarrow> ParseInt p = (0, Some ErrSyntax))"
  using SlackTSToTime_point [of a b] ParseInt_syntax [of p] by simp

theorem SlackTSToTime_discards_parse_errors_witness:
  "CHR ''.'' \<notin> set ''abc'' \<and> \<not> is_integer_text ''abc'' \<and> length ''abc'' \<le> 19 \<and>
   SlackTSToTime ''abc.def'' = Inr (Unix 0 0) \<and> ParseInt ''abc'' = (0, Some ErrSyntax)"
proof -
  have p: "ParseInt ''abc'' = (0, Some ErrSyntax)" "ParseInt ''def'' = (0, Some ErrSyntax)"
    by code_simp+
  have i: "\<not> is_integer_text ''abc''" by code_simp
  show ?thesis
    using SlackTSToTime_discards_parse_errors [of "''abc''" "''def''" "''abc''"] p i
    by (simp add: int64_def)
qed

subsection \<open>String order and numeric order of encoded timestamps\<close>

lemma digitVal_range: "isDigit c \<Longrightarrow> 0 \<le> digitVal c \<and> digitVal c \<le> 9"
  by (auto simp: isDigit_def digitVal_def)

lemma decimal_value_bounds:
  "list_all isDigit xs \<Longrightarrow> 0 \<le> decimal_value xs \<and> decimal_value xs < 10 ^ length xs"
proof (induction xs)
  case Nil
  then show ?case by simp
next
  case (Cons c cs)
  then have ih: "0 \<le> decimal_value cs" "decimal_value cs < 10 ^ length cs" by auto
  have d: "0 \<le> digitVal c" "digitVal c \<le> 9" using Cons.prems digitVal_range by auto
  have "digitVal c * 10 ^ length cs \<le> 9 * 10 ^ length cs"
    using d by (intro mult_right_mono) auto
  then have "digitVal c * 10 ^ length cs + decimal_value cs < 10 * 10 ^ length cs"
    using ih by linarith
  then show ?case using ih d by simp
qed

lemma ParseUint_loop_digits:
  "list_all isDigit xs \<Longrightarrow> 0 \<le> n \<Longrightarrow> n * 10 ^ length xs + decimal_value xs < 10 ^ 19
     \<Longrightarrow> ParseUint_loop n xs = (n * 10 ^ length xs + decimal_value xs, None)"
proof (induction xs arbitrary: n)
  case Nil
  then show ?case by simp
next
  case (Cons c cs)
  have d: "0 \<le> digitVal c" "digitVal c \<le> 9" using Cons.prems(1) digitVal_range by auto
  have v: "0 \<le> decimal_value cs" using Cons.prems(1) decimal_value_bounds by auto
  have p1: "(1::int) \<le> 10 ^ length cs" by simp
  have eq: "n * 10 ^ length (c # cs) + decimal_value (c # cs)
            = (n * 10 + digitVal c) * 10 ^ length cs + decimal_value cs"
    by (simp add: algebra_simps)
  have n1nn: "0 \<le> n * 10 + digitVal c" using Cons.prems(2) d by simp
  have "n * 10 + digitVal c \<le> (n * 10 + digitVal c) * 10 ^ length cs"
    using mult_left_mono [OF p1 n1nn] by simp
  then have n1: "n * 10 + digitVal c < 10 ^ 19"
    using Cons.prems(3) v unfolding eq by linarith
  then have n18: "n < 1844674407370955162" using d by simp
  have small: "n * 10 + digitVal c \<le> maxUint64" using n1 by (simp add: maxUint64_def)
  have ih: "ParseUint_loop (n * 10 + digitVal c) cs
            = ((n * 10 + digitVal c) * 10 ^ length cs + decimal_value cs, None)"
    using Cons.IH [of "n * 10 + digitVal c"] Cons.prems(1,3) n1nn unfolding eq by simp
  show ?case
    unfolding eq using Cons.prems(1) n18 small ih by (simp add: maxUint64_def Let_def)
qed

lemma digit_not_sign: "isDigit c \<Longrightarrow> c \<noteq> CHR ''+'' \<and> c \<noteq> CHR ''-'' \<and> c \<noteq> CHR ''.''"
  by (auto simp: isDigit_def)

lemma ParseInt_digits:
  assumes "list_all isDigit xs" "length xs \<le> 18"
  shows "fst (ParseInt xs) = decimal_value xs"
proof (cases xs)
  case Nil
  then show ?thesis by (simp add: ParseInt_def)
next
  case (Cons c cs)
  have b: "0 \<le> decimal_value xs" "decimal_value xs < 10 ^ length xs"
    using assms(1) decimal_value_bounds by auto
  have "(10::int) ^ length xs \<le> 10 ^ 18" using assms(2) by (intro power_increasing) auto
  then have lt: "decimal_value xs < 10 ^ 18" using b by linarith
  then have "ParseUint_loop 0 xs = (decimal_value xs, None)"
    using ParseUint_loop_digits [of xs 0] assms(1) by simp
  then have pu: "ParseUint xs = (decimal_value xs, None)"
    using Cons by (simp add: ParseUint_def)
  have "isDigit c" using assms(1) Cons by simp
  then have ns: "hd xs \<noteq> CHR ''+''" "hd xs \<noteq> CHR ''-''"
    using digit_not_sign Cons by auto
  show ?thesis using pu ns lt b Cons by (simp add: ParseInt_def)
qed

lemma digits_no_point: "list_all isDigit xs \<Longrightarrow> CHR ''.'' \<notin> set xs"
  using digit_not_sign by (auto simp: list_all_iff)

lemma SlackTSToTime_digits:
  assumes "list_all isDigit sa" "length sa \<le> 18" "list_all isDigit ua" "length ua = 6"
  shows "SlackTSToTime (sa @ ''.'' @ ua)
         = Inr \<lparr>unixSec = decimal_value sa, nsecOf = decimal_value ua * 1000\<rparr>"
proof -
  have sp: "Split (sa @ ''.'' @ ua) CHR ''.'' = [sa, ua]"
    using assms(1,3) digits_no_point by (simp add: Split_append_sep Split_no_sep)
  have s: "fst (ParseInt sa) = decimal_value sa" using assms(1,2) by (rule ParseInt_digits)
  have u: "fst (ParseInt ua) = decimal_value ua" using assms(3,4) by (intro ParseInt_digits) auto
  have ub: "0 \<le> decimal_value ua" "decimal_value ua < 10 ^ 6"
    using decimal_value_bounds [OF assms(3)] assms(4) by auto
  have i: "int64 (decimal_value ua * 1000) = decimal_value ua * 1000"
    using ub by (simp add: int64_def)
  have "Unix (decimal_value sa) (decimal_value ua * 1000)
        = \<lparr>unixSec = decimal_value sa, nsecOf = decimal_value ua * 1000\<rparr>"
    using ub by (simp add: Unix_def)
  then show ?thesis
    using sp s u i by (simp add: SlackTSToTime_def index_def)
qed

lemma digitVal_less: "digitVal x < digitVal y \<longleftrightarrow> (of_char x :: int) < of_char y"
  by (simp add: digitVal_def)

lemma digitVal_eq: "digitVal x = digitVal y \<longleftrightarrow> x = y"
  by (simp add: digitVal_def)

lemma string_lt_digits:
  "length xs = length ys \<Longrightarrow> list_all isDigit xs \<Longrightarrow> list_all isDigit ys
     \<Longrightarrow> (string_lt xs ys \<longleftrightarrow> decimal_value xs < decimal_value ys) \<and>
         (xs = ys \<longleftrightarrow> decimal_value xs = decimal_value ys)"
proof (induction xs ys rule: list_induct2)
  case Nil
  then show ?case by simp
next
  case (Cons x xs y ys)
  let ?P = "(10::int) ^ length ys"
  have len: "length xs = length ys" by fact
  have bx: "0 \<le> decimal_value xs" "decimal_value xs < ?P"
    using decimal_value_bounds [of xs] Cons.prems(1) len by auto
  have by': "0 \<le> decimal_value ys" "decimal_value ys < ?P"
    using decimal_value_bounds [of ys] Cons.prems(2) by auto
  have ih: "string_lt xs ys \<longleftrightarrow> decimal_value xs < decimal_value ys"
           "xs = ys \<longleftrightarrow> decimal_value xs = decimal_value ys"
    using Cons.IH Cons.prems by auto
  consider (lt) "digitVal x < digitVal y" | (eq) "digitVal x = digitVal y"
    | (gt) "digitVal y < digitVal x" by linarith
  then show ?case
  proof cases
    case lt
    then have "(digitVal x + 1) * ?P \<le> digitVal y * ?P"
      by (intro mult_right_mono) auto
    then have "digitVal x * ?P + decimal_value xs < digitVal y * ?P + decimal_value ys"
      using bx by' by (simp add: algebra_simps)
    moreover have "x \<noteq> y" using lt by auto
    ultimately show ?thesis using lt len by (auto simp: digitVal_less [symmetric])
  next
    case eq
    then have "x = y" by (simp add: digitVal_eq)
    then show ?thesis using ih len by simp
  next
    case gt
    then have "(digitVal y + 1) * ?P \<le> digitVal x * ?P"
      by (intro mult_right_mono) auto
    then have g: "digitVal y * ?P + decimal_value ys < digitVal x * ?P + decimal_value xs"
      using bx by' by (simp add: algebra_simps)
    have ne: "x \<noteq> y" using gt by auto
    have "\<not> (of_char x :: int) < of_char y" using gt by (simp add: digitVal_def)
    then show ?thesis using g ne len by auto
  qed
qed

lemma string_lt_append:
  "length xs = length ys
     \<Longrightarrow> string_lt (xs @ u) (ys @ v) \<longleftrightarrow> string_lt xs ys \<or> (xs = ys \<and> string_lt u v)"
  by (induction xs ys rule: list_induct2) auto

lemma string_lt_irrefl: "\<not> string_lt xs xs"
  by (induction xs) auto


text \<open>
  Claim C6, as stated, fails: the encodings of 999999999 s and of 1000000000 s after the
  epoch, both produced by \<^verbatim>\<open>TimeToSlackTS\<close>, decode to instants in one order and
  compare as strings in the other, because the seconds field has no fixed width.
\<close>

theorem compare_widths_counterexample:
  "TimeToSlackTS \<lparr>unixSec = 999999999, nsecOf = 0\<rparr> = Inr ''999999999.000000'' \<and>
   TimeToSlackTS \<lparr>unixSec = 1000000000, nsecOf = 0\<rparr> = Inr ''1000000000.000000'' \<and>
   SlackTSToTime ''999999999.000000'' = Inr \<lparr>unixSec = 999999999, nsecOf = 0\<rparr> \<and>
   SlackTSToTime ''1000000000.000000'' = Inr \<lparr>unixSec = 1000000000, nsecOf = 0\<rparr> \<and>
   Before \<lparr>unixSec = 999999999, nsecOf = 0\<rparr> \<lparr>unixSec = 1000000000, nsecOf = 0\<rparr> \<and>
   \<not> string_lt ''999999999.000000'' ''1000000000.000000'' \<and>
   string_lt ''1000000000.000000'' ''999999999.000000''"
proof -
  have "TimeToSlackTS \<lparr>unixSec = 999999999, nsecOf = 0\<rparr> = Inr ''999999999.000000''"
    by (simp add: TimeToSlackTS_def showInt_def quo_def UnixNano_def int64_def)
  moreover
  have "TimeToSlackTS \<lparr>unixSec = 1000000000, nsecOf = 0\<rparr> = Inr ''1000000000.000000''"
    by (simp add: TimeToSlackTS_def showInt_def quo_def UnixNano_def int64_def)
  moreover
  have "SlackTSToTime ''999999999.000000'' = Inr \<lparr>unixSec = 999999999, nsecOf = 0\<rparr>"
    by code_simp
  moreover
  have "SlackTSToTime ''1000000000.000000'' = Inr \<lparr>unixSec = 1000000000, nsecOf = 0\<rparr>"
    by code_simp
  ultimately show ?thesis by (simp add: Before_def)
qed

text \<open>
  Claim C6, amended. For two encoded timestamps whose seconds fields are digits of the
  same length (at most 18) and whose microsecond fields are six digits, the string
  comparison of the encodings agrees with the chronological comparison of the decoded
  instants, for both \<open><\<close> and \<open>=\<close>.
\<close>

theorem compare_equal_width:
  assumes "list_all isDigit sa" "list_all isDigit sb" "length sa = length sb" "length sa \<le> 18"
    and "list_all isDigit ua" "length ua = 6" "list_all isDigit ub" "length ub = 6"
  shows "\<exists>ta tb. SlackTSToTime (sa @ ''.'' @ ua) = Inr ta \<and>
                 SlackTSToTime (sb @ ''.'' @ ub) = Inr tb \<and>
                 (string_lt (sa @ ''.'' @ ua) (sb @ ''.'' @ ub) \<longleftrightarrow> Before ta tb) \<and>
                 (sa @ ''.'' @ ua = sb @ ''.'' @ ub \<longleftrightarrow> Equal ta tb)"
proof -
  let ?ta = "\<lparr>unixSec = decimal_value sa, nsecOf = decimal_value ua * 1000\<rparr>"
  let ?tb = "\<lparr>unixSec = decimal_value sb, nsecOf = decimal_value ub * 1000\<rparr>"
  have da: "SlackTSToTime (sa @ ''.'' @ ua) = Inr ?ta"
    using assms by (intro SlackTSToTime_digits) auto
  have db: "SlackTSToTime (sb @ ''.'' @ ub) = Inr ?tb"
    using assms by (intro SlackTSToTime_digits) auto
  have s: "string_lt sa sb \<longleftrightarrow> decimal_value sa < decimal_value sb"
          "sa = sb \<longleftrightarrow> decimal_value sa = decimal_value sb"
    using string_lt_digits [OF assms(3) assms(1) assms(2)] by auto
  have u: "string_lt ua ub \<longleftrightarrow> decimal_value ua < decimal_value ub"
          "ua = ub \<longleftrightarrow> decimal_value ua = decimal_value ub"
    using string_lt_digits [of ua ub] assms(5-8) by auto
  have "string_lt (sa @ ''.'' @ ua) (sb @ ''.'' @ ub)
        \<longleftrightarrow> string_lt sa sb \<or> (sa = sb \<and> string_lt ua ub)"
    using string_lt_append [OF assms(3)] by simp
  then have lt: "string_lt (sa @ ''.'' @ ua) (sb @ ''.'' @ ub) \<longleftrightarrow> Before ?ta ?tb"
    using s u by (auto simp: Before_def)
  have "sa @ ''.'' @ ua = sb @ ''.'' @ ub \<longleftrightarrow> sa = sb \<and> ua = ub"
    using assms(3) by simp
  then have eq: "sa @ ''.'' @ ua = sb @ ''.'' @ ub \<longleftrightarrow> Equal ?ta ?tb"
    using s u by (auto simp: Equal_def)
  show ?thesis using da db lt eq by blast
qed

theorem compare_equal_width_witness:
  "list_all isDigit ''1588291200'' \<and> list_all isDigit ''1588291201'' \<and>
   length ''1588291200'' = length ''1588291201'' \<and> length ''1588291200'' \<le> 18 \<and>
   list_all isDigit ''000100'' \<and> length ''000100'' = 6 \<and>
   list_all isDigit ''000000'' \<and> length ''000000'' = 6 \<and>
   (\<exists>ta tb. SlackTSToTime ''1588291200.000100'' = Inr ta \<and>
            SlackTSToTime ''1588291201.000000'' = Inr tb \<and>
            (string_lt ''1588291200.000100'' ''1588291201.000000'' \<longleftrightarrow> Before ta tb) \<and>
            (''1588291200.000100'' = ''1588291201.000000'' \<longleftrightarrow> Equal ta tb))"
proof -
  have d: "list_all isDigit ''1588291200''" "list_all isDigit ''1588291201''"
    "list_all isDigit ''000100''" "list_all isDigit ''000000''"
    by code_simp+
  show ?thesis
    using compare_equal_width [of "''1588291200''" "''1588291201''" "''000100''" "''000000''"] d
    by simp
qed

section \<open>Properties of the harvesting pipeline\<close>

subsection \<open>The name a direct conversation is filtered by\<close>

lemma Users_loop_other:
  "k \<notin> u_ID ` set us \<Longrightarrow> fst (Users_loop user us (m, uid)) k = m k"
  by (induction us arbitrary: m uid) auto

lemma Users_loop_handle:
  "distinct (map u_ID us) \<Longrightarrow> u \<in> set us
     \<Longrightarrow> fst (Users_loop user us (m, uid)) (u_ID u) = Some (u_Name u)"
proof (induction us arbitrary: m uid)
  case Nil
  then show ?case by simp
next
  case (Cons v vs)
  show ?case
  proof (cases "u = v")
    case True
    have "u_ID v \<notin> u_ID ` set vs" using Cons.prems(1) by auto
    then show ?thesis using True by (simp add: Users_loop_other)
  next
    case False
    then have "u \<in> set vs" using Cons.prems(2) by simp
    then show ?thesis using Cons.IH Cons.prems(1) by simp
  qed
qed

text \<open>
  Claim C8, as stated, fails in its second half: for a peer that is not in the mapping
  the name is the empty string, not the raw peer id. A filter that matches exactly the
  peer id does not select the conversation; a filter that matches the empty name does.
\<close>

theorem direct_name_counterexample:
  "map_get Map.empty ''U9'' = [] \<and>
   \<not> channel_selected (Some (\<lambda>name. name = ''U9'')) Map.empty
       \<lparr>c_ID = ''D1'', c_Name = [], c_User = ''U9'', c_IsIM = True, c_IsMpIM = False,
        c_IsPrivate = False\<rparr> \<and>
   channel_selected (Some (\<lambda>name. name = [])) Map.empty
       \<lparr>c_ID = ''D1'', c_Name = [], c_User = ''U9'', c_IsIM = True, c_IsMpIM = False,
        c_IsPrivate = False\<rparr>"
  by (simp add: map_get_def channel_selected_def nil_or_MatchString_def)

text \<open>
  Claim C8, amended. For a conversation with the direct flag and without the
  multi-party flag, the name matched against the filter is the peer's entry in the
  mapping that \<^verbatim>\<open>Users\<close> builds from the listed identities: the peer's handle when the
  peer is listed, and the empty string when the peer is not. It is never the
  conversation's id or name, and never the peer id.
\<close>

theorem direct_filter_name:
  assumes "c_IsIM c" "\<not> c_IsMpIM c"
    and "Users_loop user us (Map.empty, []) = (users, userID)"
  shows "(\<forall>u\<in>set us. distinct (map u_ID us) \<and> u_ID u = c_User c \<longrightarrow>
            channel_selected re users c = nil_or_MatchString re (u_Name u)) \<and>
         (c_User c \<notin> u_ID ` set us \<longrightarrow>
            channel_selected re users c = nil_or_MatchString re [])"
proof -
  have users: "users = fst (Users_loop user us (Map.empty, []))" using assms(3) by simp
  have sel: "channel_selected re users c = nil_or_MatchString re (map_get users (c_User c))"
    using assms(1,2) by (simp add: channel_selected_def)
  have a: "channel_selected re users c = nil_or_MatchString re (u_Name u)"
    if "u \<in> set us" "distinct (map u_ID us)" "u_ID u = c_User c" for u
  proof -
    have "users (c_User c) = Some (u_Name u)"
      using Users_loop_handle [OF that(2) that(1)] that(3) users by simp
    then show ?thesis using sel by (simp add: map_get_def)
  qed
  have b: "channel_selected re users c = nil_or_MatchString re []"
    if "c_User c \<notin> u_ID ` set us"
  proof -
    have "users (c_User c) = None"
      using Users_loop_other [OF that] users by simp
    then show ?thesis using sel by (simp add: map_get_def)
  qed
  show ?thesis using a b by blast
qed

theorem direct_filter_name_witness:
  "channel_selected (Some (\<lambda>name. name = ''bob''))
     (fst (Users_loop [] [\<lparr>u_ID = ''U1'', u_Name = ''alice''\<rparr>, \<lparr>u_ID = ''U2'', u_Name = ''bob''\<rparr>]
             (Map.empty, [])))
     \<lparr>c_ID = ''D1'', c_Name = [], c_User = ''U2'', c_IsIM = True, c_IsMpIM = False,
      c_IsPrivate = False\<rparr>
   = nil_or_MatchString (Some (\<lambda>name. name = ''bob'')) ''bob'' \<and>
   channel_selected (Some (\<lambda>name. name = ''bob''))
     (fst (Users_loop [] [\<lparr>u_ID = ''U1'', u_Name = ''alice''\<rparr>, \<lparr>u_ID = ''U2'', u_Name = ''bob''\<rparr>]
             (Map.empty, [])))
     \<lparr>c_ID = ''D2'', c_Name = [], c_User = ''U9'', c_IsIM = True, c_IsMpIM = False,
      c_IsPrivate = False\<rparr>
   = nil_or_MatchString (Some (\<lambda>name. name = ''bob'')) []"
proof -
  let ?us = "[\<lparr>u_ID = ''U1'', u_Name = ''alice''\<rparr>, \<lparr>u_ID = ''U2'', u_Name = ''bob''\<rparr>]"
  let ?users = "fst (Users_loop [] ?us (Map.empty, []))"
  have ul: "Users_loop [] ?us (Map.empty, []) = (?users, snd (Users_loop [] ?us (Map.empty, [])))"
    by simp
  let ?c1 = "\<lparr>c_ID = ''D1'', c_Name = [], c_User = ''U2'', c_IsIM = True, c_IsMpIM = False,
      c_IsPrivate = False\<rparr>"
  let ?c2 = "\<lparr>c_ID = ''D2'', c_Name = [], c_User = ''U9'', c_IsIM = True, c_IsMpIM = False,
      c_IsPrivate = False\<rparr>"
  have t1: "c_IsIM ?c1" "\<not> c_IsMpIM ?c1" "c_IsIM ?c2" "\<not> c_IsMpIM ?c2" by simp_all
  show ?thesis
    using direct_filter_name [OF t1(1) t1(2) ul, of "Some (\<lambda>name. name = ''bob'')"]
      direct_filter_name [OF t1(3) t1(4) ul, of "Some (\<lambda>name. name = ''bob'')"]
    by simp
qed

section \<open>Properties of the deletion executor\<close>

lemma DeleteMessage_loop_absent_or_done:
  assumes "fst (DeleteMessage (client s) (m_Channel m) (m_Timestamp m) (world st))
           \<in> insert (Inl ''message_not_found'') (range Inr)"
  shows "DeleteMessage_loop (Suc n) s m st =
         (Ok (), \<lparr>world = snd (DeleteMessage (client s) (m_Channel m) (m_Timestamp m) (world st)),
                  trace = trace st @ [Call (DeleteMessageCall (m_Channel m) (m_Timestamp m))]\<rparr>)"
  using assms
  by (cases "DeleteMessage (client s) (m_Channel m) (m_Timestamp m) (world st)")
     (auto simp: invoke_def)

lemma DeleteMessages_absent_or_done:
  assumes "\<forall>m\<in>set messages. \<forall>w.
             fst (DeleteMessage (client s) (m_Channel m) (m_Timestamp m) w)
             \<in> insert (Inl ''message_not_found'') (range Inr)"
  shows "fst (DeleteMessages (Suc n) s messages st) = Ok () \<and>
         trace (snd (DeleteMessages (Suc n) s messages st)) =
           trace st @ concat (map (\<lambda>m. [Call (DeleteMessageCall (m_Channel m) (m_Timestamp m)),
                                          Sleep 50]) messages)"
  using assms
proof (induction messages arbitrary: st)
  case Nil
  then show ?case by simp
next
  case (Cons m ms)
  have one: "fst (DeleteMessage (client s) (m_Channel m) (m_Timestamp m) (world st))
             \<in> insert (Inl ''message_not_found'') (range Inr)"
    using Cons.prems by simp
  have rest: "\<forall>m\<in>set ms. \<forall>w.
             fst (DeleteMessage (client s) (m_Channel m) (m_Timestamp m) w)
             \<in> insert (Inl ''message_not_found'') (range Inr)"
    using Cons.prems by simp
  show ?case
    using Cons.IH [OF rest]
    by (simp add: DeleteMessage_loop_absent_or_done [OF one] emit_def del: DeleteMessage_loop.simps)
qed

lemma DeleteFile_loop_absent_or_done:
  assumes "fst (DeleteFile (client s) (f_ID f) (world st)) \<in> {None, Some ''file_not_found''}"
  shows "DeleteFile_loop (Suc n) s f st =
         (Ok (), \<lparr>world = snd (DeleteFile (client s) (f_ID f) (world st)),
                  trace = trace st @ [Call (DeleteFileCall (f_ID f))]\<rparr>)"
  using assms
  by (cases "DeleteFile (client s) (f_ID f) (world st)") (auto simp: invoke_def)

lemma DeleteFiles_absent_or_done:
  assumes "\<forall>f\<in>set files. \<forall>w.
             fst (DeleteFile (client s) (f_ID f) w) \<in> {None, Some ''file_not_found''}"
  shows "fst (DeleteFiles (Suc n) s files st) = Ok () \<and>
         trace (snd (DeleteFiles (Suc n) s files st)) =
           trace st @ concat (map (\<lambda>f. [Call (DeleteFileCall (f_ID f)), Sleep 50]) files)"
  using assms
proof (induction files arbitrary: st)
  case Nil
  then show ?case by simp
next
  case (Cons f fs)
  have one: "fst (DeleteFile (client s) (f_ID f) (world st)) \<in> {None, Some ''file_not_found''}"
    using Cons.prems by simp
  have rest: "\<forall>f\<in>set fs. \<forall>w.
             fst (DeleteFile (client s) (f_ID f) w) \<in> {None, Some ''file_not_found''}"
    using Cons.prems by simp
  show ?case
    using Cons.IH [OF rest]
    by (simp add: DeleteFile_loop_absent_or_done [OF one] emit_def del: DeleteFile_loop.simps)
qed

text \<open>
  Claim C3. The deletion executor is idempotent. When every delete operation on the
  items either succeeds or fails with the already-absent error (\<^verbatim>\<open>message_not_found\<close>
  for a message, \<^verbatim>\<open>file_not_found\<close> for a file), both passes end without a panic,
  and each item is tried exactly once and followed by the 50 ms pause before the next
  item: an already-absent item counts as deleted. In particular a second run over an
  item set that was already processed, where every delete is answered with the
  already-absent error, does not fail.
\<close>

theorem delete_idempotent:
  assumes "\<forall>m\<in>set messages. \<forall>w.
             fst (DeleteMessage (client s) (m_Channel m) (m_Timestamp m) w)
             \<in> insert (Inl ''message_not_found'') (range Inr)"
    and "\<forall>f\<in>set files. \<forall>w.
             fst (DeleteFile (client s) (f_ID f) w) \<in> {None, Some ''file_not_found''}"
  shows "fst (DeleteMessages (Suc n) s messages st) = Ok () \<and>
         trace (snd (DeleteMessages (Suc n) s messages st)) =
           trace st @ concat (map (\<lambda>m. [Call (DeleteMessageCall (m_Channel m) (m_Timestamp m)),
                                          Sleep 50]) messages) \<and>
         fst (DeleteFiles (Suc n) s files st) = Ok () \<and>
         trace (snd (DeleteFiles (Suc n) s files st)) =
           trace st @ concat (map (\<lambda>f. [Call (DeleteFileCall (f_ID f)), Sleep 50]) files)"
  using DeleteMessages_absent_or_done [OF assms(1)] DeleteFiles_absent_or_done [OF assms(2)]
  by simp


theorem delete_idempotent_witness:
  "fst (DeleteMessages (Suc 0) demo_clean
         [(message ''U1'' ''1577836800.000100'' [])\<lparr>m_Channel := ''C1''\<rparr>]
         \<lparr>world = demo_workspace [] [], trace = []\<rparr>) = Ok () \<and>
   fst (DeleteFiles (Suc 0) demo_clean [upload ''F1'' ''U1'' 1577836800]
         \<lparr>world = demo_workspace [] [], trace = []\<rparr>) = Ok () \<and>
   fst (DeleteMessage workspace_client ''C1'' ''1577836800.000100'' (demo_workspace [] []))
     = Inl ''message_not_found'' \<and>
   fst (DeleteFile workspace_client ''F1'' (demo_workspace [] [])) = Some ''file_not_found''"
proof -
  have hm: "\<forall>m\<in>set [(message ''U1'' ''1577836800.000100'' [])\<lparr>m_Channel := ''C1''\<rparr>]. \<forall>w.
      fst (DeleteMessage (client demo_clean) (m_Channel m) (m_Timestamp m) w)
      \<in> insert (Inl ''message_not_found'') (range Inr)"
    by (simp add: workspace_client_def demo_clean_def)
  have hf: "\<forall>f\<in>set [upload ''F1'' ''U1'' 1577836800]. \<forall>w.
      fst (DeleteFile (client demo_clean) (f_ID f) w) \<in> {None, Some ''file_not_found''}"
    by (simp add: workspace_client_def demo_clean_def)
  have nf: "fst (DeleteMessage workspace_client ''C1'' ''1577836800.000100''
                  (demo_workspace [] [])) = Inl ''message_not_found''"
    "fst (DeleteFile workspace_client ''F1'' (demo_workspace [] [])) = Some ''file_not_found''"
    by (simp_all add: workspace_client_def demo_workspace_def)
  show ?thesis
    using delete_idempotent [OF hm hf, of 0 "\<lparr>world = demo_workspace [] [], trace = []\<rparr>"] nf
    by simp
qed

section \<open>Properties of a whole run\<close>

subsection \<open>Harvesting invokes no delete operation\<close>

lemma no_delete_invoke:
  "invoke c f st = (r, st1) \<Longrightarrow> \<not> is_delete (Call c) \<Longrightarrow> no_delete st \<Longrightarrow> no_delete st1"
  by (auto simp: invoke_def no_delete_def split: prod.splits)

lemma no_delete_ratelimitOrPanic:
  "ratelimitOrPanic e st = (r, st1) \<Longrightarrow> no_delete st \<Longrightarrow> no_delete st1"
  by (auto simp: ratelimitOrPanic_def no_delete_def emit_def split: if_splits)

lemma no_delete_Users: "no_delete st \<Longrightarrow> no_delete (snd (Users s user st))"
  by (auto simp: Users_def split: prod.splits sum.splits dest: no_delete_invoke)

lemma no_delete_Channels_loop:
  "no_delete st \<Longrightarrow> no_delete (snd (Channels_loop n s re users cursor channels st))"
proof (induction n arbitrary: cursor channels st)
  case 0
  then show ?case by simp
next
  case (Suc n)
  show ?case
    using Suc.prems Suc.IH
    by (auto simp: Let_def split: prod.splits sum.splits result.splits
          dest!: no_delete_invoke no_delete_ratelimitOrPanic)
qed

lemma no_delete_Channels:
  "no_delete st \<Longrightarrow> no_delete (snd (Channels fuel env s flt users st))"
  by (auto simp: Channels_def no_delete_Channels_loop split: sum.splits)

lemma no_delete_Files_pages:
  "no_delete st \<Longrightarrow> no_delete (snd (Files_pages n s p acc st))"
proof (induction n arbitrary: acc st)
  case 0
  then show ?case by simp
next
  case (Suc n)
  show ?case
    using Suc.prems Suc.IH
    by (auto simp: Let_def split: prod.splits sum.splits result.splits option.splits
          dest!: no_delete_invoke no_delete_ratelimitOrPanic)
qed

lemma no_delete_Files_pagesD:
  "Files_pages n s p acc st = (r, st1) \<Longrightarrow> no_delete st \<Longrightarrow> no_delete st1"
  using no_delete_Files_pages [of st n s p acc] by simp

lemma no_delete_Files_channels:
  "no_delete st \<Longrightarrow> no_delete (snd (Files_channels fuel s userID channels acc st))"
proof (induction channels arbitrary: acc st)
  case Nil
  then show ?case by simp
next
  case (Cons c cs)
  show ?case
    using Cons.prems Cons.IH
    by (auto simp: Let_def split: prod.splits result.splits dest!: no_delete_Files_pagesD)
qed

lemma no_delete_Files: "no_delete st \<Longrightarrow> no_delete (snd (Files fuel s userID channels st))"
  by (simp add: Files_def no_delete_Files_channels)

lemma no_delete_Replies_loop:
  "no_delete st \<Longrightarrow> no_delete (snd (Replies_loop n s cid p acc st))"
proof (induction n arbitrary: p acc st)
  case 0
  then show ?case by simp
next
  case (Suc n)
  show ?case
    using Suc.prems Suc.IH
    by (auto simp: Let_def split: prod.splits sum.splits result.splits
          dest!: no_delete_invoke no_delete_ratelimitOrPanic)
qed

lemma no_delete_Replies_loopD:
  "Replies_loop n s cid p acc st = (r, st1) \<Longrightarrow> no_delete st \<Longrightarrow> no_delete st1"
  using no_delete_Replies_loop [of st n s cid p acc] by simp

lemma no_delete_Messages_page:
  "no_delete st \<Longrightarrow> no_delete (snd (Messages_page fuel s c userID ms acc st))"
proof (induction ms arbitrary: acc st)
  case Nil
  then show ?case by simp
next
  case (Cons m ms)
  show ?case
    using Cons.prems Cons.IH
    by (auto simp: Let_def split: prod.splits sum.splits result.splits
          dest!: no_delete_Replies_loopD)
qed

lemma no_delete_Messages_pageD:
  "Messages_page fuel s c userID ms acc st = (r, st1) \<Longrightarrow> no_delete st \<Longrightarrow> no_delete st1"
  using no_delete_Messages_page [of st fuel s c userID ms acc] by simp

lemma no_delete_History_loop:
  "no_delete st \<Longrightarrow> no_delete (snd (History_loop fuel n s c userID cursor acc st))"
proof (induction n arbitrary: cursor acc st)
  case 0
  then show ?case by simp
next
  case (Suc n)
  show ?case
    using Suc.prems Suc.IH
    by (auto simp: Let_def split: prod.splits sum.splits result.splits
          dest!: no_delete_invoke no_delete_ratelimitOrPanic no_delete_Messages_pageD)
qed

lemma no_delete_History_loopD:
  "History_loop fuel n s c userID cursor acc st = (r, st1) \<Longrightarrow> no_delete st \<Longrightarrow> no_delete st1"
  using no_delete_History_loop [of st fuel n s c userID cursor acc] by simp

lemma no_delete_Messages_channels:
  "no_delete st \<Longrightarrow> no_delete (snd (Messages_channels fuel s channels userID acc st))"
proof (induction channels arbitrary: acc st)
  case Nil
  then show ?case by simp
next
  case (Cons c cs)
  show ?case
    using Cons.prems Cons.IH
    by (auto simp: Let_def split: prod.splits result.splits dest!: no_delete_History_loopD)
qed

lemma no_delete_Messages:
  "no_delete st \<Longrightarrow> no_delete (snd (Messages fuel s channels userID st))"
  by (simp add: Messages_def no_delete_Messages_channels)


lemma no_delete_UsersD:
  "Users s user st = (r, st1) \<Longrightarrow> no_delete st \<Longrightarrow> no_delete st1"
  using no_delete_Users [of st s user] by simp

lemma no_delete_ChannelsD:
  "Channels fuel env s flt users st = (r, st1) \<Longrightarrow> no_delete st \<Longrightarrow> no_delete st1"
  using no_delete_Channels [of st fuel env s flt users] by simp

lemma no_delete_FilesD:
  "Files fuel s userID channels st = (r, st1) \<Longrightarrow> no_delete st \<Longrightarrow> no_delete st1"
  using no_delete_Files [of st fuel s userID channels] by simp

lemma no_delete_MessagesD:
  "Messages fuel s channels userID st = (r, st1) \<Longrightarrow> no_delete st \<Longrightarrow> no_delete st1"
  using no_delete_Messages [of st fuel s channels userID] by simp

text \<open>
  Claim C9. In a run without \<^verbatim>\<open>--commit\<close> no delete operation is invoked: whatever
  the workspace answers and however long the run is followed, the trace of the run
  contains no call of \<^verbatim>\<open>DeleteMessage\<close> and none of \<^verbatim>\<open>DeleteFile\<close>; and when the
  run ends without a panic it ends in \<^verbatim>\<open>os.Exit(0)\<close> after the report of the two
  counts, never in the return that follows the delete passes.
\<close>

theorem dry_run_never_deletes:
  assumes "\<not> fl_commit flags" "no_delete st"
  shows "no_delete (snd (main fuel env flags st)) \<and>
         (\<forall>r. fst (main fuel env flags st) = Ok r \<longrightarrow> (\<exists>nm nf. r = Exit0 nm nf))"
  using assms
  by (auto simp: main_def andThen_def Let_def
        split: prod.splits sum.splits result.splits
        dest!: no_delete_UsersD no_delete_ChannelsD no_delete_FilesD no_delete_MessagesD)


subsection \<open>Running the example workspace\<close>

lemma TimeToSlackTS_20200501:
  "TimeToSlackTS \<lparr>unixSec = 1588291200, nsecOf = 0\<rparr> = Inr ''1588291200.000000''"
  by (simp add: TimeToSlackTS_def showInt_def quo_def UnixNano_def int64_def)

lemma New_demo:
  "New demo_env \<lparr>o_Before = ''20200501-0000'', o_Token = ''xoxp-1''\<rparr> = Inr demo_clean"
  by (simp add: New_def demo_env_def demo_clean_def TimeToSlackTS_20200501)

lemma SlackTSToTime_examples:
  "SlackTSToTime ''1577836800.000100'' = Inr \<lparr>unixSec = 1577836800, nsecOf = 100000\<rparr>"
  "SlackTSToTime ''1577836900.000200'' = Inr \<lparr>unixSec = 1577836900, nsecOf = 200000\<rparr>"
  "SlackTSToTime ''1588291200.000000'' = Inr \<lparr>unixSec = 1588291200, nsecOf = 0\<rparr>"
  "SlackTSToTime ''1590000000.000300'' = Inr \<lparr>unixSec = 1590000000, nsecOf = 300000\<rparr>"
  by code_simp+

lemmas demo_defs =
  demo_env_def demo_flags_def demo_clean_def demo_workspace_def alice_def bob_def general_def
  message_def upload_def workspace_client_def is_message_def

lemmas run_defs =
  main_def andThen_def Users_def Channels_def filter_regexp_def Files_def Messages_def
  invoke_def emit_def ratelimitOrPanic_def channel_selected_def nil_or_MatchString_def
  map_get_def Let_def

theorem dry_run_never_deletes_witness:
  "\<not> fl_commit (demo_flags [] False) \<and>
   no_delete \<lparr>world = demo_workspace [message ''U1'' ''1577836800.000100'' []]
                         [upload ''F1'' ''U1'' 1577836800], trace = []\<rparr> \<and>
   no_delete (snd (main (Suc 0) demo_env (demo_flags [] False)
     \<lparr>world = demo_workspace [message ''U1'' ''1577836800.000100'' []]
                [upload ''F1'' ''U1'' 1577836800], trace = []\<rparr>)) \<and>
   fst (main (Suc 0) demo_env (demo_flags [] False)
     \<lparr>world = demo_workspace [message ''U1'' ''1577836800.000100'' []]
                [upload ''F1'' ''U1'' 1577836800], trace = []\<rparr>) = Ok (Exit0 1 1)"
proof -
  let ?st = "\<lparr>world = demo_workspace [message ''U1'' ''1577836800.000100'' []]
                [upload ''F1'' ''U1'' 1577836800], trace = []\<rparr>"
  have h: "\<not> fl_commit (demo_flags [] False)" "no_delete ?st"
    by (simp_all add: demo_flags_def no_delete_def)
  have run: "fst (main (Suc 0) demo_env (demo_flags [] False) ?st) = Ok (Exit0 1 1)"
    unfolding main_def
    by (simp add: demo_flags_def New_demo [unfolded demo_env_def] demo_env_def)
       (simp add: run_defs demo_defs SlackTSToTime_examples)
  show ?thesis
    using dry_run_never_deletes [OF h, of "Suc 0" demo_env] h run by simp
qed

subsection \<open>The author filter and the time filter at work\<close>

text \<open>
  Claim C1 says that with an author filter only the items of the target identity are
  deleted. \<^verbatim>\<open>Messages\<close> does the opposite: it keeps the messages of \<^verbatim>\<open>userID\<close> and
  selects the others. In the example workspace with one old message of alice and one of
  bob, the run \<^verbatim>\<open>--user alice --commit\<close> selects bob's message alone, deletes it, and
  leaves alice's message in the workspace.
\<close>

theorem author_filter_inverted:
  "fst (Messages (Suc 0) demo_clean [general] ''U1''
         \<lparr>world = demo_workspace [message ''U1'' ''1577836800.000100'' [],
                                   message ''U2'' ''1577836900.000200'' []] [],
          trace = []\<rparr>)
     = Ok [(message ''U2'' ''1577836900.000200'' [])\<lparr>m_Channel := ''C1''\<rparr>] \<and>
   fst (main (Suc 0) demo_env (demo_flags ''alice'' True)
         \<lparr>world = demo_workspace [message ''U1'' ''1577836800.000100'' [],
                                   message ''U2'' ''1577836900.000200'' []] [],
          trace = []\<rparr>)
     = Ok (Returned 1 0) \<and>
   ws_messages (world (snd (main (Suc 0) demo_env (demo_flags ''alice'' True)
         \<lparr>world = demo_workspace [message ''U1'' ''1577836800.000100'' [],
                                   message ''U2'' ''1577836900.000200'' []] [],
          trace = []\<rparr>)))
     = [(''C1'', message ''U1'' ''1577836800.000100'' [])]"
proof -
  let ?st = "\<lparr>world = demo_workspace [message ''U1'' ''1577836800.000100'' [],
                                   message ''U2'' ''1577836900.000200'' []] [],
          trace = []\<rparr>"
  have m: "fst (Messages (Suc 0) demo_clean [general] ''U1'' ?st)
           = Ok [(message ''U2'' ''1577836900.000200'' [])\<lparr>m_Channel := ''C1''\<rparr>]"
    by (simp add: run_defs demo_defs SlackTSToTime_examples)
  have r: "main (Suc 0) demo_env (demo_flags ''alice'' True) ?st
           = (Ok (Returned 1 0),
              \<lparr>world = demo_workspace [message ''U1'' ''1577836800.000100'' []] [],
               trace = [Call GetUsersCall,
                 Call (GetConversationsCall
                   \<lparr>gc_Types = [''public_channel'', ''private_channel'', ''mpim'', ''im''],
                    gc_Cursor = []\<rparr>),
                 Call (ListFilesCall
                   \<lparr>lf_Limit = 100, lf_Channel = ''C1'', lf_User = ''U1'', lf_Cursor = []\<rparr>),
                 Call (GetConversationHistoryCall
                   \<lparr>gh_ChannelID = ''C1'', gh_Cursor = [], gh_Limit = 1000\<rparr>),
                 Call (DeleteMessageCall ''C1'' ''1577836900.000200''),
                 Sleep 50]\<rparr>)"
    unfolding main_def
    by (simp add: demo_flags_def New_demo [unfolded demo_env_def] demo_env_def)
       (simp add: run_defs demo_defs SlackTSToTime_examples)
  show ?thesis using m r by (simp add: demo_workspace_def)
qed

text \<open>
  Claim C2 says that a message whose timestamp equals the cutoff is not deleted.
  \<^verbatim>\<open>Messages\<close> keeps a message only when its timestamp is greater than \<^verbatim>\<open>beforeTS\<close>,
  so a message at the cutoff is selected; \<^verbatim>\<open>Files\<close> compares with \<open><\<close> and keeps a
  file created at the cutoff. In the example workspace with a message and a file both at
  2020-05-01 00:00:00, the run \<^verbatim>\<open>--before 20200501-0000 --commit\<close> deletes the message
  and keeps the file.
\<close>

theorem cutoff_message_deleted:
  "fst (main (Suc 0) demo_env (demo_flags [] True)
         \<lparr>world = demo_workspace [message ''U1'' ''1588291200.000000'' []]
                                  [upload ''F1'' ''U1'' 1588291200],
          trace = []\<rparr>)
     = Ok (Returned 1 0) \<and>
   world (snd (main (Suc 0) demo_env (demo_flags [] True)
         \<lparr>world = demo_workspace [message ''U1'' ''1588291200.000000'' []]
                                  [upload ''F1'' ''U1'' 1588291200],
          trace = []\<rparr>))
     = demo_workspace [] [upload ''F1'' ''U1'' 1588291200] \<and>
   beforeTS demo_clean = ''1588291200.000000'' \<and> beforeTSUnix demo_clean = 1588291200"
proof -
  let ?st = "\<lparr>world = demo_workspace [message ''U1'' ''1588291200.000000'' []]
                                  [upload ''F1'' ''U1'' 1588291200],
          trace = []\<rparr>"
  have r: "main (Suc 0) demo_env (demo_flags [] True) ?st
           = (Ok (Returned 1 0),
              \<lparr>world = demo_workspace [] [upload ''F1'' ''U1'' 1588291200],
               trace = [Call GetUsersCall,
                 Call (GetConversationsCall
                   \<lparr>gc_Types = [''public_channel'', ''private_channel'', ''mpim'', ''im''],
                    gc_Cursor = []\<rparr>),
                 Call (ListFilesCall
                   \<lparr>lf_Limit = 100, lf_Channel = ''C1'', lf_User = [], lf_Cursor = []\<rparr>),
                 Call (GetConversationHistoryCall
                   \<lparr>gh_ChannelID = ''C1'', gh_Cursor = [], gh_Limit = 1000\<rparr>),
                 Call (DeleteMessageCall ''C1'' ''1588291200.000000''),
                 Sleep 50]\<rparr>)"
    unfolding main_def
    by (simp add: demo_flags_def New_demo [unfolded demo_env_def] demo_env_def)
       (simp add: run_defs demo_defs SlackTSToTime_examples)
  show ?thesis using r by (simp add: demo_clean_def)
qed

subsection \<open>Thread expansion\<close>

lemma SlackTSToTime_decodes:
  assumes "CHR ''.'' \<in> set ts"
  shows "\<exists>t. SlackTSToTime ts = Inr t"
proof -
  obtain a b where ab: "ts = a @ CHR ''.'' # b" "CHR ''.'' \<notin> set a"
    using assms split_list_first [of "CHR ''.''" ts] by blast
  show ?thesis unfolding ab(1) using SlackTSToTime_point [OF ab(2)] by simp
qed

lemma append_replies_all:
  "\<forall>r\<in>set rs. CHR ''.'' \<in> set (m_Timestamp r)
     \<Longrightarrow> append_replies cid rs acc = Inr (acc @ map (\<lambda>r. r\<lparr>m_Channel := cid\<rparr>) rs)"
proof (induction rs arbitrary: acc)
  case Nil
  then show ?case by simp
next
  case (Cons r rs)
  obtain t where "SlackTSToTime (m_Timestamp r) = Inr t"
    using Cons.prems SlackTSToTime_decodes by fastforce
  then show ?case using Cons by simp
qed

lemma Replies_loop_harvest:
  assumes "reply_pages cl p w rs w'" "cl = client s"
    and "\<forall>r\<in>set rs. CHR ''.'' \<in> set (m_Timestamp r)"
  shows "\<exists>k0. \<forall>k\<ge>k0. \<forall>acc tr. \<exists>tr'.
           Replies_loop k s cid p acc \<lparr>world = w, trace = tr\<rparr>
           = (Ok (acc @ map (\<lambda>r. r\<lparr>m_Channel := cid\<rparr>) rs), \<lparr>world = w', trace = tr'\<rparr>)"
  using assms
proof (induction rule: reply_pages.induct)
  case (last_page cl p w rs nc w1)
  have "\<exists>tr'. Replies_loop k s cid p acc \<lparr>world = w, trace = tr\<rparr>
           = (Ok (acc @ map (\<lambda>r. r\<lparr>m_Channel := cid\<rparr>) rs), \<lparr>world = w1, trace = tr'\<rparr>)"
    if kge: "k \<ge> 1" for k acc tr
  proof -
    obtain j where k: "k = Suc j" using kge by (cases k) auto
    show ?thesis
      unfolding k using last_page append_replies_all [of rs cid acc]
      by (simp add: invoke_def)
  qed
  then show ?case by blast
next
  case (next_page cl p w rs nc w1 rest w2)
  have d: "\<forall>r\<in>set rs. CHR ''.'' \<in> set (m_Timestamp r)"
          "\<forall>r\<in>set rest. CHR ''.'' \<in> set (m_Timestamp r)"
    using next_page.prems(2) by auto
  obtain k0 where ih: "\<forall>k\<ge>k0. \<forall>acc tr. \<exists>tr'.
           Replies_loop k s cid (p\<lparr>gr_Cursor := nc\<rparr>) acc \<lparr>world = w1, trace = tr\<rparr>
           = (Ok (acc @ map (\<lambda>r. r\<lparr>m_Channel := cid\<rparr>) rest), \<lparr>world = w2, trace = tr'\<rparr>)"
    using next_page.IH [OF next_page.prems(1) d(2)] by blast
  have "\<exists>tr'. Replies_loop k s cid p acc \<lparr>world = w, trace = tr\<rparr>
           = (Ok (acc @ map (\<lambda>r. r\<lparr>m_Channel := cid\<rparr>) (rs @ rest)), \<lparr>world = w2, trace = tr'\<rparr>)"
    if kge: "k \<ge> Suc k0" for k acc tr
  proof -
    obtain j where k: "k = Suc j" "j \<ge> k0" using kge by (cases k) auto
    obtain tr' where "Replies_loop j s cid (p\<lparr>gr_Cursor := nc\<rparr>)
                        (acc @ map (\<lambda>r. r\<lparr>m_Channel := cid\<rparr>) rs)
                        \<lparr>world = w1, trace = tr @ [Call (GetConversationRepliesCall p)]\<rparr>
           = (Ok ((acc @ map (\<lambda>r. r\<lparr>m_Channel := cid\<rparr>) rs) @ map (\<lambda>r. r\<lparr>m_Channel := cid\<rparr>) rest),
              \<lparr>world = w2, trace = tr'\<rparr>)"
      using ih k(2) by blast
    then show ?thesis
      unfolding k(1) using next_page.hyps(1) next_page.prems(1) append_replies_all [OF d(1), of cid acc]
      by (simp add: invoke_def)
  qed
  then show ?case by blast
next
  case (rate_limited cl p w err w1 rs w2)
  obtain k0 where ih: "\<forall>k\<ge>k0. \<forall>acc tr. \<exists>tr'.
           Replies_loop k s cid p acc \<lparr>world = w1, trace = tr\<rparr>
           = (Ok (acc @ map (\<lambda>r. r\<lparr>m_Channel := cid\<rparr>) rs), \<lparr>world = w2, trace = tr'\<rparr>)"
    using rate_limited.IH [OF rate_limited.prems] by blast
  have "\<exists>tr'. Replies_loop k s cid p acc \<lparr>world = w, trace = tr\<rparr>
           = (Ok (acc @ map (\<lambda>r. r\<lparr>m_Channel := cid\<rparr>) rs), \<lparr>world = w2, trace = tr'\<rparr>)"
    if kge: "k \<ge> Suc k0" for k acc tr
  proof -
    obtain j where k: "k = Suc j" "j \<ge> k0" using kge by (cases k) auto
    obtain tr' where "Replies_loop j s cid p acc
                        \<lparr>world = w1, trace = tr @ [Call (GetConversationRepliesCall p), Sleep 1000]\<rparr>
           = (Ok (acc @ map (\<lambda>r. r\<lparr>m_Channel := cid\<rparr>) rs), \<lparr>world = w2, trace = tr'\<rparr>)"
      using ih k(2) by blast
    then show ?thesis
      unfolding k(1) using rate_limited.hyps(1,2) rate_limited.prems(1)
      by (simp add: invoke_def ratelimitOrPanic_def emit_def)
  qed
  then show ?case by blast
qed


text \<open>
  Claim C5. Let \<open>m\<close> be a message of a page that qualifies for deletion (it is not kept
  by the author test or by the time test, and its timestamp decodes) and that is a
  thread root (its thread timestamp is not empty and equals its timestamp). Then
  \<^verbatim>\<open>Messages\<close> appends \<open>m\<close> and after it every reply that the workspace lists for the
  thread, each exactly once and in the order listed, whatever the reply's author and
  timestamp are, and each with the conversation's id as its channel; the loop then goes
  on with the next message of the page. The replies' timestamps must decode, since
  the progress line decodes them.
\<close>

theorem thread_expansion:
  assumes "\<not> (userID \<noteq> [] \<and> m_User m = userID)"
    and "\<not> string_lt (beforeTS s) (m_Timestamp m)"
    and "CHR ''.'' \<in> set (m_Timestamp m)"
    and "m_ThreadTimestamp m \<noteq> []" "m_Timestamp m = m_ThreadTimestamp m"
    and "reply_pages (client s)
           \<lparr>gr_ChannelID = c_ID c, gr_Timestamp = m_Timestamp m, gr_Cursor = [], gr_Limit = 1000\<rparr>
           (world st) replies w'"
    and "\<forall>r\<in>set replies. CHR ''.'' \<in> set (m_Timestamp r)"
  shows "\<exists>k0. \<forall>k\<ge>k0. \<exists>st'. world st' = w' \<and>
           Messages_page k s c userID (m # ms) messagesToDelete st
           = Messages_page k s c userID ms
               (messagesToDelete @ [m\<lparr>m_Channel := c_ID c\<rparr>]
                  @ map (\<lambda>r. r\<lparr>m_Channel := c_ID c\<rparr>) replies) st'"
proof -
  let ?p = "\<lparr>gr_ChannelID = c_ID c, gr_Timestamp = m_Timestamp m, gr_Cursor = [],
             gr_Limit = 1000\<rparr>"
  let ?stamp = "\<lambda>r. r\<lparr>m_Channel := c_ID c\<rparr>"
  obtain t where dec: "SlackTSToTime (m_Timestamp m) = Inr t"
    using assms(3) SlackTSToTime_decodes by blast
  obtain k0 where h: "\<forall>k\<ge>k0. \<forall>acc tr. \<exists>tr'.
           Replies_loop k s (c_ID c) ?p acc \<lparr>world = world st, trace = tr\<rparr>
           = (Ok (acc @ map ?stamp replies), \<lparr>world = w', trace = tr'\<rparr>)"
    using Replies_loop_harvest [OF assms(6) refl assms(7)] by blast
  have st: "st = \<lparr>world = world st, trace = trace st\<rparr>" by simp
  have "\<exists>st'. world st' = w' \<and>
           Messages_page k s c userID (m # ms) messagesToDelete st
           = Messages_page k s c userID ms
               (messagesToDelete @ [?stamp m] @ map ?stamp replies) st'"
    if kge: "k \<ge> k0" for k
  proof -
    obtain tr' where r: "Replies_loop k s (c_ID c) ?p (messagesToDelete @ [?stamp m])
                           \<lparr>world = world st, trace = trace st\<rparr>
           = (Ok ((messagesToDelete @ [?stamp m]) @ map ?stamp replies),
              \<lparr>world = w', trace = tr'\<rparr>)"
      using h kge by blast
    have r': "Replies_loop k s (c_ID c) ?p (messagesToDelete @ [?stamp m]) st
           = (Ok ((messagesToDelete @ [?stamp m]) @ map ?stamp replies),
              \<lparr>world = w', trace = tr'\<rparr>)"
      using r by (cases st) simp
    have "Messages_page k s c userID (m # ms) messagesToDelete st
           = Messages_page k s c userID ms
               (messagesToDelete @ [?stamp m] @ map ?stamp replies) \<lparr>world = w', trace = tr'\<rparr>"
      using assms(1,2,4,5) dec r' by (auto simp: Let_def)
    then show ?thesis by (intro exI [of _ "\<lparr>world = w', trace = tr'\<rparr>"]) simp
  qed
  then show ?thesis by blast
qed


theorem thread_expansion_witness:
  "\<not> (''U2'' \<noteq> [] \<and> m_User (message ''U1'' ''1577836800.000100'' ''1577836800.000100'') = ''U2'') \<and>
   \<not> string_lt (beforeTS demo_clean) ''1577836800.000100'' \<and>
   string_lt (beforeTS demo_clean) ''1590000000.000300'' \<and>
   reply_pages (client demo_clean)
     \<lparr>gr_ChannelID = ''C1'', gr_Timestamp = ''1577836800.000100'', gr_Cursor = [],
      gr_Limit = 1000\<rparr>
     (demo_workspace [message ''U1'' ''1577836800.000100'' ''1577836800.000100'',
                      message ''U2'' ''1590000000.000300'' ''1577836800.000100''] [])
     [message ''U2'' ''1590000000.000300'' ''1577836800.000100'']
     (demo_workspace [message ''U1'' ''1577836800.000100'' ''1577836800.000100'',
                      message ''U2'' ''1590000000.000300'' ''1577836800.000100''] []) \<and>
   (\<exists>k0. \<forall>k\<ge>k0.
      fst (Messages_page k demo_clean general ''U2''
             [message ''U1'' ''1577836800.000100'' ''1577836800.000100''] []
             \<lparr>world = demo_workspace
                        [message ''U1'' ''1577836800.000100'' ''1577836800.000100'',
                         message ''U2'' ''1590000000.000300'' ''1577836800.000100''] [],
              trace = []\<rparr>)
      = Ok [(message ''U1'' ''1577836800.000100'' ''1577836800.000100'')\<lparr>m_Channel := ''C1''\<rparr>,
            (message ''U2'' ''1590000000.000300'' ''1577836800.000100'')\<lparr>m_Channel := ''C1''\<rparr>])"
proof -
  let ?root = "message ''U1'' ''1577836800.000100'' ''1577836800.000100''"
  let ?reply = "message ''U2'' ''1590000000.000300'' ''1577836800.000100''"
  let ?w = "demo_workspace [?root, ?reply] []"
  let ?st = "\<lparr>world = ?w, trace = []\<rparr>"
  let ?p = "\<lparr>gr_ChannelID = c_ID general, gr_Timestamp = m_Timestamp ?root, gr_Cursor = [],
             gr_Limit = 1000\<rparr>"
  have h1: "\<not> (''U2'' \<noteq> [] \<and> m_User ?root = ''U2'')" by (simp add: message_def)
  have h2: "\<not> string_lt (beforeTS demo_clean) (m_Timestamp ?root)"
    by (simp add: message_def demo_clean_def)
  have late: "string_lt (beforeTS demo_clean) ''1590000000.000300''"
    by (simp add: demo_clean_def)
  have h3: "CHR ''.'' \<in> set (m_Timestamp ?root)" by (simp add: message_def)
  have h4: "m_ThreadTimestamp ?root \<noteq> []" "m_Timestamp ?root = m_ThreadTimestamp ?root"
    by (simp_all add: message_def)
  have h6: "reply_pages (client demo_clean) ?p (world ?st) [?reply] ?w"
    by (rule reply_pages.last_page [where nc = "[]"]) (simp add: demo_defs)
  have h7: "\<forall>r\<in>set [?reply]. CHR ''.'' \<in> set (m_Timestamp r)" by (simp add: message_def)
  obtain k0 where k0: "\<forall>k\<ge>k0. \<exists>st'. world st' = ?w \<and>
           Messages_page k demo_clean general ''U2'' [?root] [] ?st
           = Messages_page k demo_clean general ''U2'' []
               ([] @ [?root\<lparr>m_Channel := c_ID general\<rparr>]
                  @ map (\<lambda>r. r\<lparr>m_Channel := c_ID general\<rparr>) [?reply]) st'"
    using thread_expansion [OF h1 h2 h3 h4 h6 h7, of "[]" "[]"] by blast
  have "\<forall>k\<ge>k0. fst (Messages_page k demo_clean general ''U2'' [?root] [] ?st)
          = Ok [?root\<lparr>m_Channel := ''C1''\<rparr>, ?reply\<lparr>m_Channel := ''C1''\<rparr>]"
    using k0 by (fastforce simp: general_def)
  then show ?thesis using h1 h2 late h6 by (auto simp: message_def general_def)
qed

section \<open>Rate limiting\<close>

lemma waited_0: "waited c 0 = []"
  by (simp add: waited_def)

lemma waited_Suc: "waited c (Suc k) = Call c # Sleep 1000 # waited c k"
  by (simp add: waited_def)

lemma rate_limited_times_SucE:
  assumes "rate_limited_times f sum_error (Suc k) w = Some wk"
  obtains e w1 where "f w = (Inl e, w1)" "Contains e ''rate limit''"
    "rate_limited_times f sum_error k w1 = Some wk"
  using assms
  by (auto simp: sum_error_def split: prod.splits sum.splits option.splits if_splits)

lemma rate_limited_times_SucE':
  assumes "rate_limited_times f (\<lambda>r. r) (Suc k) w = Some wk"
  obtains e w1 where "f w = (Some e, w1)" "Contains e ''rate limit''"
    "rate_limited_times f (\<lambda>r. r) k w1 = Some wk"
  using assms
  by (auto split: prod.splits option.splits if_splits)

lemma not_found_not_rate_limit:
  "\<not> Contains ''message_not_found'' ''rate limit''" "\<not> Contains ''file_not_found'' ''rate limit''"
  by simp_all

lemma DeleteMessage_loop_retry:
  "rate_limited_times (DeleteMessage (client s) (m_Channel m) (m_Timestamp m)) sum_error k (world st)
     = Some wk
   \<Longrightarrow> DeleteMessage_loop (k + n) s m st
       = DeleteMessage_loop n s m
           \<lparr>world = wk,
            trace = trace st @ waited (DeleteMessageCall (m_Channel m) (m_Timestamp m)) k\<rparr>"
proof (induction k arbitrary: st)
  case 0
  then show ?case by (cases st) (simp add: waited_0)
next
  case (Suc k)
  let ?c = "DeleteMessageCall (m_Channel m) (m_Timestamp m)"
  obtain e w1 where f: "DeleteMessage (client s) (m_Channel m) (m_Timestamp m) (world st) = (Inl e, w1)"
    and e: "Contains e ''rate limit''"
    and r: "rate_limited_times (DeleteMessage (client s) (m_Channel m) (m_Timestamp m)) sum_error k w1
            = Some wk"
    using Suc.prems by (rule rate_limited_times_SucE)
  have ne: "e \<noteq> ''message_not_found''" using e by auto
  let ?st2 = "\<lparr>world = w1, trace = trace st @ [Call ?c, Sleep 1000]\<rparr>"
  have "DeleteMessage_loop (Suc k + n) s m st = DeleteMessage_loop (k + n) s m ?st2"
    using f e ne by (simp add: invoke_def ratelimitOrPanic_def emit_def)
  also have "\<dots> = DeleteMessage_loop n s m \<lparr>world = wk, trace = trace ?st2 @ waited ?c k\<rparr>"
    using Suc.IH [of ?st2] r by simp
  finally show ?case by (simp add: waited_Suc del: DeleteMessage_loop.simps)
qed

lemma DeleteFile_loop_retry:
  "rate_limited_times (DeleteFile (client s) (f_ID f)) (\<lambda>r. r) k (world st) = Some wk
   \<Longrightarrow> DeleteFile_loop (k + n) s f st
       = DeleteFile_loop n s f
           \<lparr>world = wk, trace = trace st @ waited (DeleteFileCall (f_ID f)) k\<rparr>"
proof (induction k arbitrary: st)
  case 0
  then show ?case by (cases st) (simp add: waited_0)
next
  case (Suc k)
  let ?c = "DeleteFileCall (f_ID f)"
  obtain e w1 where f: "DeleteFile (client s) (f_ID f) (world st) = (Some e, w1)"
    and e: "Contains e ''rate limit''"
    and r: "rate_limited_times (DeleteFile (client s) (f_ID f)) (\<lambda>r. r) k w1 = Some wk"
    using Suc.prems by (rule rate_limited_times_SucE')
  have ne: "e \<noteq> ''file_not_found''" using e by auto
  let ?st2 = "\<lparr>world = w1, trace = trace st @ [Call ?c, Sleep 1000]\<rparr>"
  have "DeleteFile_loop (Suc k + n) s f st = DeleteFile_loop (k + n) s f ?st2"
    using f e ne by (simp add: invoke_def ratelimitOrPanic_def emit_def)
  also have "\<dots> = DeleteFile_loop n s f \<lparr>world = wk, trace = trace ?st2 @ waited ?c k\<rparr>"
    using Suc.IH [of ?st2] r by simp
  finally show ?case by (simp add: waited_Suc del: DeleteFile_loop.simps)
qed

lemma Channels_loop_retry:
  "rate_limited_times
     (GetConversations (client s)
        \<lparr>gc_Types = [''public_channel'', ''private_channel'', ''mpim'', ''im''],
         gc_Cursor = cursor\<rparr>) sum_error k (world st) = Some wk
   \<Longrightarrow> Channels_loop (k + n) s re users cursor channels st
       = Channels_loop n s re users cursor channels
           \<lparr>world = wk,
            trace = trace st @ waited (GetConversationsCall
              \<lparr>gc_Types = [''public_channel'', ''private_channel'', ''mpim'', ''im''],
               gc_Cursor = cursor\<rparr>) k\<rparr>"
proof (induction k arbitrary: st)
  case 0
  then show ?case by (cases st) (simp add: waited_0)
next
  case (Suc k)
  let ?p = "\<lparr>gc_Types = [''public_channel'', ''private_channel'', ''mpim'', ''im''],
             gc_Cursor = cursor\<rparr>"
  let ?c = "GetConversationsCall ?p"
  obtain e w1 where f: "GetConversations (client s) ?p (world st) = (Inl e, w1)"
    and e: "Contains e ''rate limit''"
    and r: "rate_limited_times (GetConversations (client s) ?p) sum_error k w1 = Some wk"
    using Suc.prems by (rule rate_limited_times_SucE)
  let ?st2 = "\<lparr>world = w1, trace = trace st @ [Call ?c, Sleep 1000]\<rparr>"
  have "Channels_loop (Suc k + n) s re users cursor channels st
        = Channels_loop (k + n) s re users cursor channels ?st2"
    using f e by (simp add: invoke_def ratelimitOrPanic_def emit_def)
  also have "\<dots> = Channels_loop n s re users cursor channels
                      \<lparr>world = wk, trace = trace ?st2 @ waited ?c k\<rparr>"
    using Suc.IH [of ?st2] r by simp
  finally show ?case by (simp add: waited_Suc del: Channels_loop.simps)
qed

lemma History_loop_retry:
  "rate_limited_times
     (GetConversationHistory (client s)
        \<lparr>gh_ChannelID = c_ID c, gh_Cursor = cursor, gh_Limit = 1000\<rparr>) sum_error k (world st)
     = Some wk
   \<Longrightarrow> History_loop fuel (k + n) s c userID cursor messagesToDelete st
       = History_loop fuel n s c userID cursor messagesToDelete
           \<lparr>world = wk,
            trace = trace st @ waited (GetConversationHistoryCall
              \<lparr>gh_ChannelID = c_ID c, gh_Cursor = cursor, gh_Limit = 1000\<rparr>) k\<rparr>"
proof (induction k arbitrary: st)
  case 0
  then show ?case by (cases st) (simp add: waited_0)
next
  case (Suc k)
  let ?p = "\<lparr>gh_ChannelID = c_ID c, gh_Cursor = cursor, gh_Limit = 1000\<rparr>"
  let ?c = "GetConversationHistoryCall ?p"
  obtain e w1 where f: "GetConversationHistory (client s) ?p (world st) = (Inl e, w1)"
    and e: "Contains e ''rate limit''"
    and r: "rate_limited_times (GetConversationHistory (client s) ?p) sum_error k w1 = Some wk"
    using Suc.prems by (rule rate_limited_times_SucE)
  let ?st2 = "\<lparr>world = w1, trace = trace st @ [Call ?c, Sleep 1000]\<rparr>"
  have "History_loop fuel (Suc k + n) s c userID cursor messagesToDelete st
        = History_loop fuel (k + n) s c userID cursor messagesToDelete ?st2"
    using f e by (simp add: invoke_def ratelimitOrPanic_def emit_def)
  also have "\<dots> = History_loop fuel n s c userID cursor messagesToDelete
                      \<lparr>world = wk, trace = trace ?st2 @ waited ?c k\<rparr>"
    using Suc.IH [of ?st2] r by simp
  finally show ?case by (simp add: waited_Suc del: History_loop.simps)
qed

lemma Replies_loop_retry:
  "rate_limited_times (GetConversationReplies (client s) p) sum_error k (world st) = Some wk
   \<Longrightarrow> Replies_loop (k + n) s cid p messagesToDelete st
       = Replies_loop n s cid p messagesToDelete
           \<lparr>world = wk, trace = trace st @ waited (GetConversationRepliesCall p) k\<rparr>"
proof (induction k arbitrary: st)
  case 0
  then show ?case by (cases st) (simp add: waited_0)
next
  case (Suc k)
  let ?c = "GetConversationRepliesCall p"
  obtain e w1 where f: "GetConversationReplies (client s) p (world st) = (Inl e, w1)"
    and e: "Contains e ''rate limit''"
    and r: "rate_limited_times (GetConversationReplies (client s) p) sum_error k w1 = Some wk"
    using Suc.prems by (rule rate_limited_times_SucE)
  let ?st2 = "\<lparr>world = w1, trace = trace st @ [Call ?c, Sleep 1000]\<rparr>"
  have "Replies_loop (Suc k + n) s cid p messagesToDelete st
        = Replies_loop (k + n) s cid p messagesToDelete ?st2"
    using f e by (simp add: invoke_def ratelimitOrPanic_def emit_def)
  also have "\<dots> = Replies_loop n s cid p messagesToDelete
                      \<lparr>world = wk, trace = trace ?st2 @ waited ?c k\<rparr>"
    using Suc.IH [of ?st2] r by simp
  finally show ?case by (simp add: waited_Suc del: Replies_loop.simps)
qed

lemma Channels_loop_fatal:
  "GetConversations (client s)
     \<lparr>gc_Types = [''public_channel'', ''private_channel'', ''mpim'', ''im''],
      gc_Cursor = cursor\<rparr> (world st) = (Inl e, w1)
   \<Longrightarrow> \<not> Contains e ''rate limit''
   \<Longrightarrow> fst (Channels_loop (Suc n) s re users cursor channels st) = Panic (PanicErr e)"
  by (simp add: invoke_def ratelimitOrPanic_def)

lemma History_loop_fatal:
  "GetConversationHistory (client s)
     \<lparr>gh_ChannelID = c_ID c, gh_Cursor = cursor, gh_Limit = 1000\<rparr> (world st) = (Inl e, w1)
   \<Longrightarrow> \<not> Contains e ''rate limit''
   \<Longrightarrow> fst (History_loop fuel (Suc n) s c userID cursor messagesToDelete st)
       = Panic (PanicErr e)"
  by (simp add: invoke_def ratelimitOrPanic_def)

lemma Replies_loop_fatal:
  "GetConversationReplies (client s) p (world st) = (Inl e, w1)
   \<Longrightarrow> \<not> Contains e ''rate limit''
   \<Longrightarrow> fst (Replies_loop (Suc n) s cid p messagesToDelete st) = Panic (PanicErr e)"
  by (simp add: invoke_def ratelimitOrPanic_def)

lemma DeleteMessage_loop_fatal:
  "DeleteMessage (client s) (m_Channel m) (m_Timestamp m) (world st) = (Inl e, w1)
   \<Longrightarrow> \<not> Contains e ''rate limit'' \<Longrightarrow> e \<noteq> ''message_not_found''
   \<Longrightarrow> fst (DeleteMessage_loop (Suc n) s m st) = Panic (PanicErr e)"
  by (simp add: invoke_def ratelimitOrPanic_def)

lemma DeleteFile_loop_fatal:
  "DeleteFile (client s) (f_ID f) (world st) = (Some e, w1)
   \<Longrightarrow> \<not> Contains e ''rate limit'' \<Longrightarrow> e \<noteq> ''file_not_found''
   \<Longrightarrow> fst (DeleteFile_loop (Suc n) s f st) = Panic (PanicErr e)"
  by (simp add: invoke_def ratelimitOrPanic_def)


text \<open>
  Claim C4, as stated, fails in both directions. A delete that fails with
  \<^verbatim>\<open>message_not_found\<close>, which is not a rate-limit error, does not abort the run: the
  executor goes on. A rate-limit error on the listing of identities is not retried:
  \<^verbatim>\<open>Users\<close> panics on every error. A rate-limit error on the listing of files is not
  retried either: \<^verbatim>\<open>Files\<close> waits one second and then reads the results of the failed
  call, here a \<^verbatim>\<open>nil\<close> parameter block, as \<^verbatim>\<open>slack-go\<close> returns it with an error.
\<close>

theorem rate_limit_counterexample:
  "\<not> Contains ''message_not_found'' ''rate limit'' \<and>
   fst (DeleteMessage workspace_client ''C1'' ''1577836800.000100'' (demo_workspace [] []))
     = Inl ''message_not_found'' \<and>
   fst (DeleteMessages (Suc 0) demo_clean
          [(message ''U1'' ''1577836800.000100'' [])\<lparr>m_Channel := ''C1''\<rparr>]
          \<lparr>world = demo_workspace [] [], trace = []\<rparr>) = Ok () \<and>
   Contains ''slack rate limit exceeded, retry after 1s'' ''rate limit'' \<and>
   Users countdown_clean [] \<lparr>world = 1, trace = []\<rparr>
     = (Panic (PanicErr ''slack rate limit exceeded, retry after 1s''),
        \<lparr>world = 0, trace = [Call GetUsersCall]\<rparr>) \<and>
   Files (Suc (Suc 0)) countdown_clean [] [general] \<lparr>world = 1, trace = []\<rparr>
     = (Panic NilDereference,
        \<lparr>world = 0,
         trace = [Call (ListFilesCall
                    \<lparr>lf_Limit = 100, lf_Channel = ''C1'', lf_User = [], lf_Cursor = []\<rparr>),
                  Sleep 1000]\<rparr>)"
  by (simp add: run_defs demo_defs countdown_clean_def countdown_client_def
        countdown_answer_def countdown_error_def)


text \<open>
  Claim C4, amended. For the listing of conversations, of a history and of replies, and
  for the deletion of a message and of a file: when the first \<open>k\<close> invocations are
  refused with an error that contains \<^verbatim>\<open>rate limit\<close>, the loop waits one second after
  each of them and invokes the same operation with the same arguments again, and after
  them it stands where it started, in the workspace these invocations left, so that its
  result is the result of the first invocation that is not so refused; this holds for
  every \<open>k\<close>. An error of these operations that does not contain \<^verbatim>\<open>rate limit\<close>
  aborts with a panic of that error, save that \<^verbatim>\<open>message_not_found\<close> and
  \<^verbatim>\<open>file_not_found\<close> end the two delete loops with success.
\<close>

theorem rate_limit_retry:
  "(rate_limited_times
      (GetConversations (client s)
         \<lparr>gc_Types = [''public_channel'', ''private_channel'', ''mpim'', ''im''],
          gc_Cursor = cursor\<rparr>) sum_error k (world st) = Some w1 \<longrightarrow>
    Channels_loop (k + n) s re users cursor channels st
      = Channels_loop n s re users cursor channels
          \<lparr>world = w1,
           trace = trace st @ waited (GetConversationsCall
             \<lparr>gc_Types = [''public_channel'', ''private_channel'', ''mpim'', ''im''],
              gc_Cursor = cursor\<rparr>) k\<rparr>) \<and>
   (rate_limited_times
      (GetConversationHistory (client s)
         \<lparr>gh_ChannelID = c_ID c, gh_Cursor = cursor, gh_Limit = 1000\<rparr>) sum_error k (world st)
      = Some w2 \<longrightarrow>
    History_loop fuel (k + n) s c userID cursor messagesToDelete st
      = History_loop fuel n s c userID cursor messagesToDelete
          \<lparr>world = w2,
           trace = trace st @ waited (GetConversationHistoryCall
             \<lparr>gh_ChannelID = c_ID c, gh_Cursor = cursor, gh_Limit = 1000\<rparr>) k\<rparr>) \<and>
   (rate_limited_times (GetConversationReplies (client s) p) sum_error k (world st) = Some w3 \<longrightarrow>
    Replies_loop (k + n) s cid p messagesToDelete st
      = Replies_loop n s cid p messagesToDelete
          \<lparr>world = w3, trace = trace st @ waited (GetConversationRepliesCall p) k\<rparr>) \<and>
   (rate_limited_times (DeleteMessage (client s) (m_Channel m) (m_Timestamp m)) sum_error k
      (world st) = Some w4 \<longrightarrow>
    DeleteMessage_loop (k + n) s m st
      = DeleteMessage_loop n s m
          \<lparr>world = w4,
           trace = trace st @ waited (DeleteMessageCall (m_Channel m) (m_Timestamp m)) k\<rparr>) \<and>
   (rate_limited_times (DeleteFile (client s) (f_ID f)) (\<lambda>r. r) k (world st) = Some w5 \<longrightarrow>
    DeleteFile_loop (k + n) s f st
      = DeleteFile_loop n s f
          \<lparr>world = w5, trace = trace st @ waited (DeleteFileCall (f_ID f)) k\<rparr>) \<and>
   (\<not> Contains e ''rate limit'' \<longrightarrow>
      (GetConversations (client s)
         \<lparr>gc_Types = [''public_channel'', ''private_channel'', ''mpim'', ''im''],
          gc_Cursor = cursor\<rparr> (world st) = (Inl e, u1) \<longrightarrow>
       fst (Channels_loop (Suc n) s re users cursor channels st) = Panic (PanicErr e)) \<and>
      (GetConversationHistory (client s)
         \<lparr>gh_ChannelID = c_ID c, gh_Cursor = cursor, gh_Limit = 1000\<rparr> (world st) = (Inl e, u2) \<longrightarrow>
       fst (History_loop fuel (Suc n) s c userID cursor messagesToDelete st)
         = Panic (PanicErr e)) \<and>
      (GetConversationReplies (client s) p (world st) = (Inl e, u3) \<longrightarrow>
       fst (Replies_loop (Suc n) s cid p messagesToDelete st) = Panic (PanicErr e)) \<and>
      (DeleteMessage (client s) (m_Channel m) (m_Timestamp m) (world st) = (Inl e, u4) \<longrightarrow>
       fst (DeleteMessage_loop (Suc n) s m st)
         = (if e = ''message_not_found'' then Ok () else Panic (PanicErr e))) \<and>
      (DeleteFile (client s) (f_ID f) (world st) = (Some e, u5) \<longrightarrow>
       fst (DeleteFile_loop (Suc n) s f st)
         = (if e = ''file_not_found'' then Ok () else Panic (PanicErr e))))"
proof -
  have nf1: "fst (DeleteMessage_loop (Suc n) s m st) = Ok ()"
    if "DeleteMessage (client s) (m_Channel m) (m_Timestamp m) (world st)
        = (Inl ''message_not_found'', u4)"
    using that by (simp add: invoke_def)
  have nf2: "fst (DeleteFile_loop (Suc n) s f st) = Ok ()"
    if "DeleteFile (client s) (f_ID f) (world st) = (Some ''file_not_found'', u5)"
    using that by (simp add: invoke_def)
  show ?thesis
    using Channels_loop_retry [of s cursor k st w1 n re users channels]
      History_loop_retry [of s c cursor k st w2 fuel n userID messagesToDelete]
      Replies_loop_retry [of s p k st w3 n cid messagesToDelete]
      DeleteMessage_loop_retry [of s m k st w4 n]
      DeleteFile_loop_retry [of s f k st w5 n]
      Channels_loop_fatal [of s cursor st e u1 n re users channels]
      History_loop_fatal [of s c cursor st e u2 fuel n userID messagesToDelete]
      Replies_loop_fatal [of s p st e u3 n cid messagesToDelete]
      DeleteMessage_loop_fatal [of s m st e u4 n]
      DeleteFile_loop_fatal [of s f st e u5 n]
      nf1 nf2
    by (intro conjI impI) (simp_all del: Channels_loop.simps History_loop.simps
        Replies_loop.simps DeleteMessage_loop.simps DeleteFile_loop.simps)
qed


theorem rate_limit_retry_witness:
  "rate_limited_times (DeleteFile (client countdown_clean) ''F1'') (\<lambda>r. r) (Suc (Suc 0)) 2
     = Some 0 \<and>
   DeleteFile_loop (Suc (Suc 0) + Suc 0) countdown_clean (upload ''F1'' ''U1'' 1577836800)
       \<lparr>world = 2, trace = []\<rparr>
     = (Ok (), \<lparr>world = 0,
                trace = [Call (DeleteFileCall ''F1''), Sleep 1000,
                         Call (DeleteFileCall ''F1''), Sleep 1000,
                         Call (DeleteFileCall ''F1'')]\<rparr>) \<and>
   rate_limited_times (DeleteMessage (client countdown_clean) ''C1'' ''1577836800.000100'')
       sum_error (Suc (Suc 0)) 2 = Some 0 \<and>
   DeleteMessage_loop (Suc (Suc 0) + Suc 0) countdown_clean
       ((message ''U1'' ''1577836800.000100'' [])\<lparr>m_Channel := ''C1''\<rparr>)
       \<lparr>world = 2, trace = []\<rparr>
     = (Ok (), \<lparr>world = 0,
                trace = [Call (DeleteMessageCall ''C1'' ''1577836800.000100''), Sleep 1000,
                         Call (DeleteMessageCall ''C1'' ''1577836800.000100''), Sleep 1000,
                         Call (DeleteMessageCall ''C1'' ''1577836800.000100'')]\<rparr>) \<and>
   fst (Channels_loop (Suc (Suc 0) + Suc 0) countdown_clean None Map.empty [] []
          \<lparr>world = 2, trace = []\<rparr>) = Ok [] \<and>
   fst (History_loop (Suc 0) (Suc (Suc 0) + Suc 0) countdown_clean general [] [] []
          \<lparr>world = 2, trace = []\<rparr>) = Ok [] \<and>
   fst (Replies_loop (Suc (Suc 0) + Suc 0) countdown_clean ''C1''
          \<lparr>gr_ChannelID = ''C1'', gr_Timestamp = ''1577836800.000100'', gr_Cursor = [],
           gr_Limit = 1000\<rparr> [] \<lparr>world = 2, trace = []\<rparr>) = Ok [] \<and>
   \<not> Contains ''channel_not_found'' ''rate limit'' \<and>
   fst (Channels_loop (Suc 0) countdown_clean None Map.empty [] [] \<lparr>world = 100, trace = []\<rparr>)
     = Panic (PanicErr ''channel_not_found'') \<and>
   fst (History_loop (Suc 0) (Suc 0) countdown_clean general [] [] []
          \<lparr>world = 100, trace = []\<rparr>) = Panic (PanicErr ''channel_not_found'') \<and>
   fst (Replies_loop (Suc 0) countdown_clean ''C1''
          \<lparr>gr_ChannelID = ''C1'', gr_Timestamp = ''1577836800.000100'', gr_Cursor = [],
           gr_Limit = 1000\<rparr> [] \<lparr>world = 100, trace = []\<rparr>)
     = Panic (PanicErr ''channel_not_found'') \<and>
   fst (DeleteMessage_loop (Suc 0) countdown_clean
          ((message ''U1'' ''1577836800.000100'' [])\<lparr>m_Channel := ''C1''\<rparr>)
          \<lparr>world = 100, trace = []\<rparr>) = Panic (PanicErr ''channel_not_found'') \<and>
   fst (DeleteFile_loop (Suc 0) countdown_clean (upload ''F1'' ''U1'' 1577836800)
          \<lparr>world = 100, trace = []\<rparr>) = Panic (PanicErr ''channel_not_found'') \<and>
   fst (DeleteMessage_loop (Suc 0) demo_clean
          ((message ''U1'' ''1577836800.000100'' [])\<lparr>m_Channel := ''C1''\<rparr>)
          \<lparr>world = demo_workspace [] [], trace = []\<rparr>) = Ok () \<and>
   fst (DeleteFile_loop (Suc 0) demo_clean (upload ''F1'' ''U1'' 1577836800)
          \<lparr>world = demo_workspace [] [], trace = []\<rparr>) = Ok ()"
proof -
  let ?m = "(message ''U1'' ''1577836800.000100'' [])\<lparr>m_Channel := ''C1''\<rparr>"
  let ?f = "upload ''F1'' ''U1'' 1577836800"
  let ?p = "\<lparr>gr_ChannelID = ''C1'', gr_Timestamp = ''1577836800.000100'', gr_Cursor = [],
             gr_Limit = 1000\<rparr>"
  note cd = countdown_clean_def countdown_client_def countdown_answer_def countdown_error_def
    sum_error_def message_def upload_def general_def
  have two: "(2::nat) - Suc 0 = Suc 0" by simp
  have h:
    "rate_limited_times (GetConversations (client countdown_clean)
        \<lparr>gc_Types = [''public_channel'', ''private_channel'', ''mpim'', ''im''],
         gc_Cursor = []\<rparr>) sum_error (Suc (Suc 0)) (world \<lparr>world = 2::nat, trace = []\<rparr>) = Some 0"
    "rate_limited_times (GetConversationHistory (client countdown_clean)
        \<lparr>gh_ChannelID = c_ID general, gh_Cursor = [], gh_Limit = 1000\<rparr>) sum_error (Suc (Suc 0))
        (world \<lparr>world = 2::nat, trace = []\<rparr>) = Some 0"
    "rate_limited_times (GetConversationReplies (client countdown_clean) ?p) sum_error
        (Suc (Suc 0)) (world \<lparr>world = 2::nat, trace = []\<rparr>) = Some 0"
    "rate_limited_times (DeleteMessage (client countdown_clean) (m_Channel ?m) (m_Timestamp ?m))
        sum_error (Suc (Suc 0)) (world \<lparr>world = 2::nat, trace = []\<rparr>) = Some 0"
    "rate_limited_times (DeleteFile (client countdown_clean) (f_ID ?f)) (\<lambda>r. r)
        (Suc (Suc 0)) (world \<lparr>world = 2::nat, trace = []\<rparr>) = Some 0"
    by (simp_all add: cd)
  have retry:
    "fst (Channels_loop (Suc (Suc 0) + Suc 0) countdown_clean None Map.empty [] []
          \<lparr>world = 2, trace = []\<rparr>) = Ok []"
    "fst (History_loop (Suc 0) (Suc (Suc 0) + Suc 0) countdown_clean general [] [] []
          \<lparr>world = 2, trace = []\<rparr>) = Ok []"
    "fst (Replies_loop (Suc (Suc 0) + Suc 0) countdown_clean ''C1'' ?p [] \<lparr>world = 2, trace = []\<rparr>)
       = Ok []"
    "DeleteMessage_loop (Suc (Suc 0) + Suc 0) countdown_clean ?m \<lparr>world = 2, trace = []\<rparr>
     = (Ok (), \<lparr>world = 0,
                trace = [Call (DeleteMessageCall ''C1'' ''1577836800.000100''), Sleep 1000,
                         Call (DeleteMessageCall ''C1'' ''1577836800.000100''), Sleep 1000,
                         Call (DeleteMessageCall ''C1'' ''1577836800.000100'')]\<rparr>)"
    "DeleteFile_loop (Suc (Suc 0) + Suc 0) countdown_clean ?f \<lparr>world = 2, trace = []\<rparr>
     = (Ok (), \<lparr>world = 0,
                trace = [Call (DeleteFileCall ''F1''), Sleep 1000,
                         Call (DeleteFileCall ''F1''), Sleep 1000,
                         Call (DeleteFileCall ''F1'')]\<rparr>)"
    using rate_limit_retry [of countdown_clean "[]" "Suc (Suc 0)" "\<lparr>world = 2, trace = []\<rparr>"
        0 "Suc 0" None Map.empty "[]" general 0 "Suc 0" "[]" "[]" ?p 0 "''C1''" ?m 0 ?f 0] h
    by (simp_all add: cd waited_Suc waited_0 invoke_def del: rate_limited_times.simps)
  have fatal:
    "fst (Channels_loop (Suc 0) countdown_clean None Map.empty [] [] \<lparr>world = 100, trace = []\<rparr>)
     = Panic (PanicErr ''channel_not_found'')"
    "fst (History_loop (Suc 0) (Suc 0) countdown_clean general [] [] []
          \<lparr>world = 100, trace = []\<rparr>) = Panic (PanicErr ''channel_not_found'')"
    "fst (Replies_loop (Suc 0) countdown_clean ''C1'' ?p [] \<lparr>world = 100, trace = []\<rparr>)
     = Panic (PanicErr ''channel_not_found'')"
    "fst (DeleteMessage_loop (Suc 0) countdown_clean ?m \<lparr>world = 100, trace = []\<rparr>)
     = Panic (PanicErr ''channel_not_found'')"
    "fst (DeleteFile_loop (Suc 0) countdown_clean ?f \<lparr>world = 100, trace = []\<rparr>)
     = Panic (PanicErr ''channel_not_found'')"
    using rate_limit_retry [of countdown_clean "[]" 0 "\<lparr>world = 100, trace = []\<rparr>"
        100 0 None Map.empty "[]" general 100 "Suc 0" "[]" "[]" ?p 100 "''C1''" ?m 100 ?f 100
        "''channel_not_found''" 99 99 99 99 99]
    by (simp_all add: cd del: Channels_loop.simps History_loop.simps Replies_loop.simps
        DeleteMessage_loop.simps DeleteFile_loop.simps)
  have absent:
    "fst (DeleteMessage_loop (Suc 0) demo_clean ?m \<lparr>world = demo_workspace [] [], trace = []\<rparr>)
     = Ok ()"
    using rate_limit_retry [of demo_clean "[]" 0 "\<lparr>world = demo_workspace [] [], trace = []\<rparr>"
        _ 0 None Map.empty "[]" general _ "Suc 0" "[]" "[]" ?p _ "''C1''" ?m _ ?f _
        "''message_not_found''" _ _ _ "demo_workspace [] []" _]
    by (simp add: demo_defs del: Channels_loop.simps History_loop.simps Replies_loop.simps
        DeleteMessage_loop.simps DeleteFile_loop.simps)
  have absent2:
    "fst (DeleteFile_loop (Suc 0) demo_clean ?f \<lparr>world = demo_workspace [] [], trace = []\<rparr>)
     = Ok ()"
    using rate_limit_retry [of demo_clean "[]" 0 "\<lparr>world = demo_workspace [] [], trace = []\<rparr>"
        _ 0 None Map.empty "[]" general _ "Suc 0" "[]" "[]" ?p _ "''C1''" ?m _ ?f _
        "''file_not_found''" _ _ _ _ "demo_workspace [] []"]
    by (simp add: demo_defs del: Channels_loop.simps History_loop.simps Replies_loop.simps
        DeleteMessage_loop.simps DeleteFile_loop.simps)
  have nc: "\<not> Contains ''channel_not_found'' ''rate limit''" by simp
  show ?thesis
    using h(4,5) retry fatal absent absent2 nc
    by (simp add: message_def upload_def countdown_clean_def
        del: Channels_loop.simps History_loop.simps Replies_loop.simps
        DeleteMessage_loop.simps DeleteFile_loop.simps rate_limited_times.simps)
qed

end
